theory Spec2Isabelle
  imports Main "HOL-Library.Char_ord" "HOL-Library.List_Lexorder"
begin

section \<open>JSON values and \<open>JSON.stringify\<close>\<close>

text \<open>
  The operation arguments and the attribute values of a replicated object are JavaScript
  data. They are modelled as JSON trees; an object keeps its properties in insertion
  order, which is the order \<open>JSON.stringify\<close> and \<open>Object.keys\<close> enumerate them in, and
  holds each key once. The numbers are those with an integer value (timestamps are
  \<open>Date.now()\<close> readings); strings are ASCII.
\<close>

datatype json =
    JNull
  | JBool bool
  | JNum int
  | JStr string
  | JArr "json list"
  | JObj "(string \<times> json) list"

definition hexDigit :: "nat \<Rightarrow> char" where
  "hexDigit n = ''0123456789abcdef'' ! n"

text \<open>
  \<open>JSON.stringify\<close> escapes the double quote, the backslash and the control characters
  below U+0020 (the short forms for backspace, tab, newline, form feed and carriage
  return, a four-digit \<open>\u\<close> escape for the others).
\<close>

definition escapeChar :: "char \<Rightarrow> string" where
  "escapeChar c =
     (if c = CHR 0x22 then [CHR 0x5C, CHR 0x22]
      else if c = CHR 0x5C then [CHR 0x5C, CHR 0x5C]
      else if c = CHR 0x08 then [CHR 0x5C, CHR ''b'']
      else if c = CHR 0x09 then [CHR 0x5C, CHR ''t'']
      else if c = CHR 0x0A then [CHR 0x5C, CHR ''n'']
      else if c = CHR 0x0C then [CHR 0x5C, CHR ''f'']
      else if c = CHR 0x0D then [CHR 0x5C, CHR ''r'']
      else if (of_char c :: nat) < 32
        then [CHR 0x5C, CHR ''u'', CHR ''0'', CHR ''0'',
              hexDigit ((of_char c :: nat) div 16), hexDigit ((of_char c :: nat) mod 16)]
      else [c])"

definition quoteString :: "string \<Rightarrow> string" where
  "quoteString s = [CHR 0x22] @ concat (map escapeChar s) @ [CHR 0x22]"

fun joinComma :: "string list \<Rightarrow> string" where
  "joinComma [] = []"
| "joinComma [x] = x"
| "joinComma (x # y # ys) = x @ '','' @ joinComma (y # ys)"

definition member :: "string \<times> string \<Rightarrow> string" where
  "member kv = quoteString (fst kv) @ '':'' @ snd kv"

text \<open>
  \<open>JSON.stringify\<close> with no indent argument: no whitespace, properties in the order the
  object holds them. How a number is printed (the conversion of a double to a string) is
  left to the runtime: it is the parameter \<open>num\<close>.
\<close>

primrec stringify :: "(int \<Rightarrow> string) \<Rightarrow> json \<Rightarrow> string" where
  "stringify num JNull = ''null''"
| "stringify num (JBool b) = (if b then ''true'' else ''false'')"
| "stringify num (JNum n) = num n"
| "stringify num (JStr s) = quoteString s"
| "stringify num (JArr xs) = ''['' @ joinComma (map (stringify num) xs) @ '']''"
| "stringify num (JObj kvs) =
     ''{'' @ joinComma (map member (map (map_prod id (stringify num)) kvs)) @ ''}''"

text \<open>
  \<open>deepEqual\<close> of the library \<open>fast-equals\<close> on these values: two arrays are equal when
  they have the same length and equal elements at every index; two plain objects are
  equal when they have the same number of keys and, for every key of the first, the
  second has the key and the two values are equal, whatever the order of the keys;
  other values are equal when they are identical.
\<close>

fun elementsEqual :: "(json \<Rightarrow> bool) list \<Rightarrow> json list \<Rightarrow> bool" where
  "elementsEqual [] [] = True"
| "elementsEqual (eq # eqs) (y # ys) = (eq y \<and> elementsEqual eqs ys)"
| "elementsEqual _ _ = False"

definition membersEqual :: "(string \<times> (json \<Rightarrow> bool)) list \<Rightarrow> (string \<times> json) list \<Rightarrow> bool" where
  "membersEqual eqs lws =
     (length eqs = length lws \<and>
      list_all (\<lambda>k. case (map_of eqs k, map_of lws k) of
                       (Some eq, Some w) \<Rightarrow> eq w
                     | _ \<Rightarrow> False) (map fst eqs))"

primrec deepEqual :: "json \<Rightarrow> json \<Rightarrow> bool" where
  "deepEqual JNull b = (b = JNull)"
| "deepEqual (JBool x) b = (b = JBool x)"
| "deepEqual (JNum n) b = (b = JNum n)"
| "deepEqual (JStr s) b = (b = JStr s)"
| "deepEqual (JArr xs) b =
     (case b of JArr ys \<Rightarrow> elementsEqual (map deepEqual xs) ys | _ \<Rightarrow> False)"
| "deepEqual (JObj kvs) b =
     (case b of JObj lws \<Rightarrow> membersEqual (map (map_prod id deepEqual) kvs) lws | _ \<Rightarrow> False)"

section \<open>Operations and vertices\<close>

datatype DrpType = ACL | DRP

text \<open>
  Modelled from the spec: the enum \<open>DrpType\<close> of \<open>interface.ts\<close> is not among the sources;
  the spec names its two members \<open>DRP\<close> and \<open>ACL\<close>, taken here as their string values.
\<close>

definition drpTypeString :: "DrpType \<Rightarrow> string" where
  "drpTypeString t = (case t of ACL \<Rightarrow> ''ACL'' | DRP \<Rightarrow> ''DRP'')"

text \<open>
  An operation is an object with the properties \<open>drpType\<close>, \<open>opType\<close> and \<open>value\<close>. Like
  every object it holds them in the order they were given to it, which \<open>opKeys\<close> records.
\<close>

datatype OperationKey = DrpTypeKey | OpTypeKey | ValueKey

record Operation =
  drpType :: DrpType
  opType :: string
  opValue :: "json list"
  opKeys :: "OperationKey list"

record Vertex =
  vhash :: string
  peerId :: string
  operation :: "Operation option"
  dependencies :: "string list"
  timestamp :: int
  signature :: "nat list"

text \<open>The operation object as \<open>JSON.stringify\<close> walks it: its properties in its own order.\<close>

definition operationKeyName :: "OperationKey \<Rightarrow> string" where
  "operationKeyName k =
     (case k of DrpTypeKey \<Rightarrow> ''drpType'' | OpTypeKey \<Rightarrow> ''opType'' | ValueKey \<Rightarrow> ''value'')"

definition operationProperty :: "Operation \<Rightarrow> OperationKey \<Rightarrow> json" where
  "operationProperty op k =
     (case k of
        DrpTypeKey \<Rightarrow> JStr (drpTypeString (drpType op))
      | OpTypeKey \<Rightarrow> JStr (opType op)
      | ValueKey \<Rightarrow> JArr (opValue op))"

definition operationJson :: "Operation \<Rightarrow> json" where
  "operationJson op = JObj (map (\<lambda>k. (operationKeyName k, operationProperty op k)) (opKeys op))"

text \<open>
  The object literal \<open>{ operation, deps, peerId, timestamp }\<close> of \<open>computeHash\<close>. A
  property whose value is \<open>undefined\<close> is left out by \<open>JSON.stringify\<close>.
\<close>

definition hashRecord :: "string \<Rightarrow> Operation option \<Rightarrow> string list \<Rightarrow> int \<Rightarrow> json" where
  "hashRecord p op deps ts =
     JObj ((case op of None \<Rightarrow> [] | Some oper \<Rightarrow> [(''operation'', operationJson oper)]) @
           [(''deps'', JArr (map JStr deps)),
            (''peerId'', JStr p),
            (''timestamp'', JNum ts)])"

text \<open>
  \<open>computeHash\<close>. The digest \<open>crypto.createHash("sha256") ... digest("hex")\<close> and the
  printing of numbers belong to the Node runtime and are parameters of the model.
\<close>

definition computeHash ::
  "(string \<Rightarrow> string) \<Rightarrow> (int \<Rightarrow> string) \<Rightarrow> string \<Rightarrow> Operation option \<Rightarrow> string list \<Rightarrow>
     int \<Rightarrow> string" where
  "computeHash sha256hex num p op deps ts =
     (let serialized = stringify num (hashRecord p op deps ts) in sha256hex serialized)"

text \<open>
  The encoding the specification describes: the same record serialized with the keys of
  every object sorted.
\<close>

primrec sortKeys :: "json \<Rightarrow> json" where
  "sortKeys JNull = JNull"
| "sortKeys (JBool b) = JBool b"
| "sortKeys (JNum n) = JNum n"
| "sortKeys (JStr s) = JStr s"
| "sortKeys (JArr xs) = JArr (map sortKeys xs)"
| "sortKeys (JObj kvs) = JObj (sort_key fst (map (map_prod id sortKeys) kvs))"

definition specCanonicalEncoding ::
  "(int \<Rightarrow> string) \<Rightarrow> string \<Rightarrow> Operation option \<Rightarrow> string list \<Rightarrow> int \<Rightarrow> string" where
  "specCanonicalEncoding num p op deps ts = stringify num (sortKeys (hashRecord p op deps ts))"

section \<open>Objects, cached states and errors\<close>

text \<open>
  A JavaScript object is the list of its own enumerable properties in insertion order. A
  property holds data or a function. \<open>cloneDeep\<close> is the identity on these immutable
  values; reading a missing property gives \<open>undefined\<close> (\<open>None\<close>).
\<close>

datatype jsval = Data json | Func string

type_synonym object = "(string \<times> jsval) list"

text \<open>A \<open>DRPState\<close> is its list \<open>state\<close> of entries \<open>(key, value)\<close>.\<close>

type_synonym DRPState = "(string \<times> jsval) list"

definition objectKeys :: "object \<Rightarrow> string list" where
  "objectKeys obj = map fst obj"

definition getProp :: "object \<Rightarrow> string \<Rightarrow> jsval option" where
  "getProp obj k = map_of obj k"

text \<open>\<open>obj[k] = v\<close>: an existing property keeps its place, a new one goes last.\<close>

fun setProp :: "object \<Rightarrow> string \<Rightarrow> jsval \<Rightarrow> object" where
  "setProp [] k v = [(k, v)]"
| "setProp (p # ps) k v = (if fst p = k then (k, v) # ps else p # setProp ps k v)"

text \<open>\<open>for (const entry of state.state) obj[entry.key] = entry.value\<close>\<close>

fun assignEntries :: "object \<Rightarrow> DRPState \<Rightarrow> object" where
  "assignEntries obj [] = obj"
| "assignEntries obj (entry # entries) = assignEntries (setProp obj (fst entry) (snd entry)) entries"

text \<open>\<open>Object.assign(target, source)\<close> copies every own property of the source.\<close>

definition objectAssign :: "object \<Rightarrow> object \<Rightarrow> object" where
  "objectAssign target source = assignEntries target source"

datatype error =
    ConstructionError
  | InvalidHash string
  | NoDependencies string
  | InvalidDependency string string
  | InvalidTimestamp string
  | NoWritePermission string
  | ObjectACLUndefined
  | DRPUndefined
  | StateUndefined
  | InvalidOperationType string
  | NotAFunction string
  | ErrorWhileApplying string string
  | DRPOrHashgraphUndefined
  | ObjectACLOrHashgraphUndefined
  | GraphError string

text \<open>
  What the property walk of \<open>_applyOperation\<close> finds at a dotted path of an object: a
  falsy member on the way, a target that is not a function, or a method. Calling the
  method with the argument list either throws a value or returns a result (\<open>None\<close> is
  \<open>undefined\<close>) together with the object as the call leaves it.
\<close>

datatype callee =
    InvalidPath
  | NotFunction
  | Method "json list \<Rightarrow> string + (json option \<times> object)"

section \<open>The hash graph\<close>

text \<open>
  Modelled from the spec: the class \<open>HashGraph\<close> (\<open>hashgraph/index.ts\<close>) is not among the
  sources. Section 4.1 of the specification gives its \<open>vertices\<close> mapping, its frontier
  and \<open>add_vertex\<close>: "inserts v, adds edges dep to v, removes every dep from the frontier,
  adds v to the frontier. Fails if any dep is unknown or v already present";
  \<open>get_frontier\<close> "returns the current frontier as an ordered sequence (sorted by hash)".
  The forward and reverse edges are determined by the vertices' dependency lists.
\<close>

record HashGraph =
  hgVertices :: "(string \<times> Vertex) list"
  frontier :: "string list"

definition hasVertex :: "HashGraph \<Rightarrow> string \<Rightarrow> bool" where
  "hasVertex g h = (map_of (hgVertices g) h \<noteq> None)"

definition getVertex :: "HashGraph \<Rightarrow> string \<Rightarrow> Vertex option" where
  "getVertex g h = map_of (hgVertices g) h"

definition insertVertex :: "HashGraph \<Rightarrow> Vertex \<Rightarrow> HashGraph" where
  "insertVertex g v =
     \<lparr>hgVertices = hgVertices g @ [(vhash v, v)],
      frontier = filter (\<lambda>h. h \<notin> set (dependencies v)) (frontier g) @ [vhash v]\<rparr>"

definition addVertex :: "HashGraph \<Rightarrow> Vertex \<Rightarrow> error + HashGraph" where
  "addVertex g v =
     (if list_ex (\<lambda>d. \<not> hasVertex g d) (dependencies v) then Inl (GraphError ''unknown dependency'')
      else if hasVertex g (vhash v) then Inl (GraphError ''duplicate vertex'')
      else Inr (insertVertex g v))"

text \<open>
  Modelled from the spec: \<open>addToFrontier\<close> is the insertion \<open>callFn\<close> uses for a vertex
  whose dependencies are the current frontier (section 4.2, step 5: "append to the graph").
\<close>

definition addToFrontier :: "HashGraph \<Rightarrow> Vertex \<Rightarrow> HashGraph" where
  "addToFrontier g v = insertVertex g v"

definition getFrontier :: "HashGraph \<Rightarrow> string list" where
  "getFrontier g = sort (frontier g)"

definition getAllVertices :: "HashGraph \<Rightarrow> Vertex list" where
  "getAllVertices g = map snd (hgVertices g)"

section \<open>Collaborators outside the sources\<close>

text \<open>
  The digest and the printing of numbers, the root vertex, the two graph algorithms
  (lowest common ancestor of several heads, which also yields the subgraph, and
  linearization), the methods of the DRP and of the ACL and the constructor of the
  default ACL are not in \<open>index.ts\<close>. They
  are the fields of an environment every definition below takes, so every theorem holds
  for all of them.
\<close>

record env =
  sha256hex :: "string \<Rightarrow> string"
  numberToString :: "int \<Rightarrow> string"
  rootVertex :: Vertex
  lowestCommonAncestorMultipleVertices ::
    "HashGraph \<Rightarrow> string list \<Rightarrow> error + (string \<times> string list)"
  linearizeOperations :: "HashGraph \<Rightarrow> string \<Rightarrow> string list \<Rightarrow> error + Operation list"
  resolveMethod :: "DrpType \<Rightarrow> object \<Rightarrow> string list \<Rightarrow> callee"
  query_isWriter :: "object \<Rightarrow> string \<Rightarrow> bool"
  query_getFinalitySigners :: "object \<Rightarrow> (string \<times> string) list"
  newObjectACL :: "(string \<times> string) list \<Rightarrow> bool \<Rightarrow> object"

definition rootHash :: "env \<Rightarrow> string" where
  "rootHash E = vhash (rootVertex E)"

text \<open>
  Modelled from the spec: a new graph holds the root vertex alone ("a distinguished
  Vertex with empty deps"), which is also its frontier.
\<close>

definition newHashGraph :: "env \<Rightarrow> HashGraph" where
  "newHashGraph E =
     \<lparr>hgVertices = [(rootHash E, rootVertex E)], frontier = [rootHash E]\<rparr>"

section \<open>The object engine\<close>

text \<open>
  Modelled from the spec: the \<open>FinalityStore\<close> (\<open>finality/index.ts\<close>) is not among the
  sources; \<open>initializeState\<close> creates "an entry keyed by the vertex hash with that signer
  set and an empty attestation set" (section 4.7).
\<close>

type_synonym FinalityStore = "string \<rightharpoonup> ((string \<times> string) list \<times> string list)"

definition initializeState ::
  "FinalityStore \<Rightarrow> string \<Rightarrow> (string \<times> string) list \<Rightarrow> FinalityStore" where
  "initializeState store h signers = store(h \<mapsto> (signers, []))"

text \<open>
  The fields of \<open>DRPObject\<close>. \<open>hashGraph\<close> is set by the constructor on both of its paths
  and never cleared, so it is not optional here and the \<open>Hashgraph is undefined\<close> guards
  have no branch. A subscriber is known by a number; \<open>delivered\<close> records every callback
  invocation of \<open>_notify\<close> as (subscriber, origin, vertices).
\<close>

record DRPObject =
  oid :: string
  objPeerId :: string
  vertices :: "Vertex list"
  acl :: "object option"
  drp :: "object option"
  hashGraph :: HashGraph
  drpStates :: "string \<rightharpoonup> DRPState"
  aclStates :: "string \<rightharpoonup> DRPState"
  originalDRP :: "object option"
  originalObjectACL :: "object option"
  finalityStore :: FinalityStore
  subscriptions :: "nat list"
  delivered :: "(nat \<times> string \<times> Vertex list) list"

definition subscribe :: "DRPObject \<Rightarrow> nat \<Rightarrow> DRPObject" where
  "subscribe st callback = st\<lparr>subscriptions := subscriptions st @ [callback]\<rparr>"

definition notify :: "DRPObject \<Rightarrow> string \<Rightarrow> Vertex list \<Rightarrow> DRPObject" where
  "notify st origin vs =
     st\<lparr>delivered := delivered st @ map (\<lambda>callback. (callback, origin, vs)) (subscriptions st)\<rparr>"

text \<open>\<open>opType.split(".")\<close>\<close>

fun splitDot :: "string \<Rightarrow> string list" where
  "splitDot [] = [[]]"
| "splitDot (c # cs) =
     (if c = CHR ''.'' then [] # splitDot cs
      else (case splitDot cs of [] \<Rightarrow> [[c]] | part # parts \<Rightarrow> (c # part) # parts))"

text \<open>
  \<open>_applyOperation\<close>: the walk along all but the last part of the path, the test that the
  last part names a function, and the call; an exception of the method is rethrown
  wrapped. The method runs on the object it is given and the mutated object is returned
  with the result.
\<close>

definition applyOperation ::
  "env \<Rightarrow> DrpType \<Rightarrow> object \<Rightarrow> Operation \<Rightarrow> error + (json option \<times> object)" where
  "applyOperation E kind obj op =
     (let typeParts = splitDot (opType op) in
      case resolveMethod E kind obj typeParts of
        InvalidPath \<Rightarrow> Inl (InvalidOperationType (opType op))
      | NotFunction \<Rightarrow> Inl (NotAFunction (opType op))
      | Method m \<Rightarrow>
          (case m (opValue op) of
             Inl e \<Rightarrow> Inl (ErrorWhileApplying (opType op) e)
           | Inr r \<Rightarrow> Inr r))"

text \<open>\<open>computeLCA\<close>\<close>

definition computeLCA ::
  "env \<Rightarrow> HashGraph \<Rightarrow> string list \<Rightarrow> error + (string \<times> Operation list)" where
  "computeLCA E g vertexDependencies =
     (if length vertexDependencies = 1 then Inr (hd vertexDependencies, [])
      else
        (case lowestCommonAncestorMultipleVertices E g vertexDependencies of
           Inl e \<Rightarrow> Inl e
         | Inr (lca, subgraph) \<Rightarrow>
             (case linearizeOperations E g lca subgraph of
                Inl e \<Rightarrow> Inl e
              | Inr linearizedOperations \<Rightarrow> Inr (lca, linearizedOperations))))"

text \<open>The replay loop of \<open>_computeDRP\<close> and \<open>_computeObjectACL\<close> over the operations of one kind.\<close>

fun replayOperations :: "env \<Rightarrow> DrpType \<Rightarrow> object \<Rightarrow> Operation list \<Rightarrow> error + object" where
  "replayOperations E kind obj [] = Inr obj"
| "replayOperations E kind obj (op # ops) =
     (if drpType op = kind then
        (case applyOperation E kind obj op of
           Inl e \<Rightarrow> Inl e
         | Inr r \<Rightarrow> replayOperations E kind (snd r) ops)
      else replayOperations E kind obj ops)"

text \<open>
  The common body of \<open>_computeDRP\<close> and \<open>_computeObjectACL\<close>, which differ in the kind, the
  original snapshot and the cache they read: clone the original, load the cached state
  at the LCA, replay the linearized operations of the kind, then the vertex's own
  operation when it is of the kind.
\<close>

definition computeFrom ::
  "env \<Rightarrow> DrpType \<Rightarrow> object \<Rightarrow> (string \<rightharpoonup> DRPState) \<Rightarrow> HashGraph \<Rightarrow> string list \<Rightarrow>
     (string \<times> Operation list) option \<Rightarrow> Operation option \<Rightarrow> error + object" where
  "computeFrom E kind original states g vertexDependencies preCompute vertexOperation =
     (case (case preCompute of Some p \<Rightarrow> Inr p | None \<Rightarrow> computeLCA E g vertexDependencies) of
        Inl e \<Rightarrow> Inl e
      | Inr (lca, linearizedOperations) \<Rightarrow>
          (case states lca of
             None \<Rightarrow> Inl StateUndefined
           | Some fetchedState \<Rightarrow>
               (case replayOperations E kind (assignEntries original fetchedState)
                       linearizedOperations of
                  Inl e \<Rightarrow> Inl e
                | Inr obj \<Rightarrow>
                    (case vertexOperation of
                       None \<Rightarrow> Inr obj
                     | Some op \<Rightarrow>
                         if drpType op = kind then
                           (case applyOperation E kind obj op of
                              Inl e \<Rightarrow> Inl e
                            | Inr r \<Rightarrow> Inr (snd r))
                         else Inr obj))))"

definition computeDRP ::
  "env \<Rightarrow> DRPObject \<Rightarrow> string list \<Rightarrow> (string \<times> Operation list) option \<Rightarrow>
     Operation option \<Rightarrow> error + object" where
  "computeDRP E st vertexDependencies preCompute vertexOperation =
     (case (drp st, originalDRP st) of
        (Some _, Some original) \<Rightarrow>
          computeFrom E DRP original (drpStates st) (hashGraph st) vertexDependencies
            preCompute vertexOperation
      | _ \<Rightarrow> Inl DRPUndefined)"

definition computeObjectACL ::
  "env \<Rightarrow> DRPObject \<Rightarrow> string list \<Rightarrow> (string \<times> Operation list) option \<Rightarrow>
     Operation option \<Rightarrow> error + object" where
  "computeObjectACL E st vertexDependencies preCompute vertexOperation =
     (case (acl st, originalObjectACL st) of
        (Some _, Some original) \<Rightarrow>
          computeFrom E ACL original (aclStates st) (hashGraph st) vertexDependencies
            preCompute vertexOperation
      | _ \<Rightarrow> Inl ObjectACLUndefined)"

text \<open>\<open>_getDRPState\<close>: the entries \<open>(key, drp[key])\<close> for \<open>Object.keys(drp)\<close>, in that order.\<close>

definition getDRPState :: "object \<Rightarrow> DRPState" where
  "getDRPState obj = map (\<lambda>p. (fst p, snd p)) obj"

definition computeDRPState ::
  "env \<Rightarrow> DRPObject \<Rightarrow> string list \<Rightarrow> (string \<times> Operation list) option \<Rightarrow>
     Operation option \<Rightarrow> error + DRPState" where
  "computeDRPState E st vertexDependencies preCompute vertexOperation =
     (case computeDRP E st vertexDependencies preCompute vertexOperation of
        Inl e \<Rightarrow> Inl e
      | Inr obj \<Rightarrow> Inr (getDRPState obj))"

definition computeObjectACLState ::
  "env \<Rightarrow> DRPObject \<Rightarrow> string list \<Rightarrow> (string \<times> Operation list) option \<Rightarrow>
     Operation option \<Rightarrow> error + DRPState" where
  "computeObjectACLState E st vertexDependencies preCompute vertexOperation =
     (case computeObjectACL E st vertexDependencies preCompute vertexOperation of
        Inl e \<Rightarrow> Inl e
      | Inr obj \<Rightarrow> Inr (getDRPState obj))"

text \<open>
  \<open>_setObjectACLState\<close> and \<open>_setDRPState\<close>: \<open>drpState ?? this._compute...State(...)\<close> is
  evaluated before \<open>Map.set\<close>, so a failing computation leaves the cache as it was.
\<close>

definition setObjectACLState ::
  "env \<Rightarrow> DRPObject \<Rightarrow> Vertex \<Rightarrow> (string \<times> Operation list) option \<Rightarrow> DRPState option \<Rightarrow>
     error + DRPObject" where
  "setObjectACLState E st vertex preCompute drpState =
     (if acl st \<noteq> None then
        (case drpState of
           Some s \<Rightarrow> Inr (st\<lparr>aclStates := (aclStates st)(vhash vertex \<mapsto> s)\<rparr>)
         | None \<Rightarrow>
             (case computeObjectACLState E st (dependencies vertex) preCompute
                     (operation vertex) of
                Inl e \<Rightarrow> Inl e
              | Inr s \<Rightarrow> Inr (st\<lparr>aclStates := (aclStates st)(vhash vertex \<mapsto> s)\<rparr>)))
      else Inr st)"

definition setDRPState ::
  "env \<Rightarrow> DRPObject \<Rightarrow> Vertex \<Rightarrow> (string \<times> Operation list) option \<Rightarrow> DRPState option \<Rightarrow>
     error + DRPObject" where
  "setDRPState E st vertex preCompute drpState =
     (case drpState of
        Some s \<Rightarrow> Inr (st\<lparr>drpStates := (drpStates st)(vhash vertex \<mapsto> s)\<rparr>)
      | None \<Rightarrow>
          (case computeDRPState E st (dependencies vertex) preCompute (operation vertex) of
             Inl e \<Rightarrow> Inl e
           | Inr s \<Rightarrow> Inr (st\<lparr>drpStates := (drpStates st)(vhash vertex \<mapsto> s)\<rparr>)))"

text \<open>\<open>_initializeFinalityState\<close>\<close>

definition initializeFinalityState :: "env \<Rightarrow> DRPObject \<Rightarrow> string \<Rightarrow> error + DRPObject" where
  "initializeFinalityState E st h =
     (case (acl st, originalObjectACL st) of
        (Some _, Some original) \<Rightarrow>
          (case aclStates st h of
             None \<Rightarrow> Inr st
           | Some fetchedState \<Rightarrow>
               Inr (st\<lparr>finalityStore :=
                     initializeState (finalityStore st) h
                       (query_getFinalitySigners E (assignEntries original fetchedState))\<rparr>))
      | _ \<Rightarrow> Inl ObjectACLUndefined)"

text \<open>
  \<open>_checkWriterPermission\<close>. Without a DRP the query goes to the live ACL \<open>this.acl\<close>;
  were that undefined, the method call on it would throw.
\<close>

definition checkWriterPermission :: "env \<Rightarrow> DRPObject \<Rightarrow> string \<Rightarrow> string list \<Rightarrow> error + bool" where
  "checkWriterPermission E st p deps =
     (if drp st = None then
        (case acl st of
           None \<Rightarrow> Inl ObjectACLUndefined
         | Some liveAcl \<Rightarrow> Inr (query_isWriter E liveAcl p))
      else
        (case computeObjectACL E st deps None None of
           Inl e \<Rightarrow> Inl e
         | Inr aclObj \<Rightarrow> Inr (query_isWriter E aclObj p)))"

text \<open>The loop of \<open>validateVertex\<close> over the dependencies; \<open>None\<close> when no dependency is refused.\<close>

fun checkDependencies :: "HashGraph \<Rightarrow> Vertex \<Rightarrow> string list \<Rightarrow> error option" where
  "checkDependencies g vertex [] = None"
| "checkDependencies g vertex (dep # deps) =
     (case getVertex g dep of
        None \<Rightarrow> Some (InvalidDependency (vhash vertex) dep)
      | Some depVertex \<Rightarrow>
          if timestamp depVertex > timestamp vertex then Some (InvalidTimestamp (vhash vertex))
          else checkDependencies g vertex deps)"

text \<open>\<open>validateVertex\<close>; \<open>now\<close> is the reading of \<open>Date.now()\<close>.\<close>

definition validateVertex :: "env \<Rightarrow> int \<Rightarrow> DRPObject \<Rightarrow> Vertex \<Rightarrow> error + unit" where
  "validateVertex E now st vertex =
     (if vhash vertex \<noteq>
           computeHash (sha256hex E) (numberToString E) (peerId vertex) (operation vertex)
             (dependencies vertex) (timestamp vertex)
      then Inl (InvalidHash (vhash vertex))
      else if length (dependencies vertex) = 0 then Inl (NoDependencies (vhash vertex))
      else
        (case checkDependencies (hashGraph st) vertex (dependencies vertex) of
           Some e \<Rightarrow> Inl e
         | None \<Rightarrow>
             if timestamp vertex > now then Inl (InvalidTimestamp (vhash vertex))
             else
               (case checkWriterPermission E st (peerId vertex) (dependencies vertex) of
                  Inl e \<Rightarrow> Inl e
                | Inr allowed \<Rightarrow>
                    if \<not> allowed then Inl (NoWritePermission (peerId vertex)) else Inr ())))"

section \<open>Merge\<close>

text \<open>
  The two cache writes in the \<open>try\<close> block of \<open>_mergeWithDrp\<close> for a vertex whose
  operation is \<open>op\<close>. An exception leaves the object as the statements before it left
  it, so the result is the caught error, if any, with the object at that point.
\<close>

definition setStatesForMerge ::
  "env \<Rightarrow> DRPObject \<Rightarrow> Vertex \<Rightarrow> Operation \<Rightarrow> string \<times> Operation list \<Rightarrow>
     error option \<times> DRPObject" where
  "setStatesForMerge E st vertex op preComputeLca =
     (if drpType op = DRP then
        (case computeDRP E st (dependencies vertex) (Some preComputeLca) (Some op) of
           Inl e \<Rightarrow> (Some e, st)
         | Inr drpObj \<Rightarrow>
             (case setObjectACLState E st vertex (Some preComputeLca) None of
                Inl e \<Rightarrow> (Some e, st)
              | Inr st1 \<Rightarrow>
                  (case setDRPState E st1 vertex (Some preComputeLca)
                          (Some (getDRPState drpObj)) of
                     Inl e \<Rightarrow> (Some e, st1)
                   | Inr st2 \<Rightarrow> (None, st2))))
      else
        (case computeObjectACL E st (dependencies vertex) (Some preComputeLca) (Some op) of
           Inl e \<Rightarrow> (Some e, st)
         | Inr aclObj \<Rightarrow>
             (case setObjectACLState E st vertex (Some preComputeLca)
                     (Some (getDRPState aclObj)) of
                Inl e \<Rightarrow> (Some e, st)
              | Inr st1 \<Rightarrow>
                  (case setDRPState E st1 vertex (Some preComputeLca) None of
                     Inl e \<Rightarrow> (Some e, st1)
                   | Inr st2 \<Rightarrow> (None, st2)))))"

text \<open>The body of the \<open>try\<close> block of \<open>_mergeWithDrp\<close>.\<close>

definition tryMergeWithDrp ::
  "env \<Rightarrow> int \<Rightarrow> DRPObject \<Rightarrow> Vertex \<Rightarrow> Operation \<Rightarrow> error option \<times> DRPObject" where
  "tryMergeWithDrp E now st vertex op =
     (case validateVertex E now st vertex of
        Inl e \<Rightarrow> (Some e, st)
      | Inr _ \<Rightarrow>
     (case computeLCA E (hashGraph st) (dependencies vertex) of
        Inl e \<Rightarrow> (Some e, st)
      | Inr preComputeLca \<Rightarrow>
     (case setStatesForMerge E st vertex op preComputeLca of
        (Some e, st2) \<Rightarrow> (Some e, st2)
      | (None, st2) \<Rightarrow>
     (case addVertex (hashGraph st2) vertex of
        Inl e \<Rightarrow> (Some e, st2)
      | Inr g \<Rightarrow>
     (case initializeFinalityState E (st2\<lparr>hashGraph := g\<rparr>) (vhash vertex) of
        Inl e \<Rightarrow> (Some e, st2\<lparr>hashGraph := g\<rparr>)
      | Inr st3 \<Rightarrow> (None, st3))))))"

text \<open>The body of the \<open>try\<close> block of \<open>_mergeWithoutDrp\<close>.\<close>

definition tryMergeWithoutDrp ::
  "env \<Rightarrow> int \<Rightarrow> DRPObject \<Rightarrow> Vertex \<Rightarrow> Operation \<Rightarrow> error option \<times> DRPObject" where
  "tryMergeWithoutDrp E now st vertex op =
     (case validateVertex E now st vertex of
        Inl e \<Rightarrow> (Some e, st)
      | Inr _ \<Rightarrow>
          (case addVertex (hashGraph st)
                  \<lparr>vhash = vhash vertex, peerId = peerId vertex, operation = Some op,
                   dependencies = dependencies vertex, timestamp = timestamp vertex,
                   signature = signature vertex\<rparr> of
             Inl e \<Rightarrow> (Some e, st)
           | Inr g \<Rightarrow> (None, st\<lparr>hashGraph := g\<rparr>)))"

text \<open>
  The \<open>for\<close> loop both merge functions share: a vertex without operation or already in the
  graph is skipped; otherwise the \<open>try\<close> body runs, a caught exception pushes the hash to
  \<open>missing\<close>, and a completed body pushes the vertex to \<open>newVertices\<close> (which only
  \<open>_mergeWithDrp\<close> keeps). \<open>clock i\<close> is what \<open>Date.now()\<close> reads while the vertex at
  position \<open>i\<close> of the batch is validated.
\<close>

fun mergeLoop ::
  "(int \<Rightarrow> DRPObject \<Rightarrow> Vertex \<Rightarrow> Operation \<Rightarrow> error option \<times> DRPObject) \<Rightarrow> (nat \<Rightarrow> int) \<Rightarrow>
     nat \<Rightarrow> DRPObject \<Rightarrow> Vertex list \<Rightarrow> DRPObject \<times> string list \<times> Vertex list" where
  "mergeLoop body clock i st [] = (st, [], [])"
| "mergeLoop body clock i st (vertex # rest) =
     (case operation vertex of
        None \<Rightarrow> mergeLoop body clock (Suc i) st rest
      | Some op \<Rightarrow>
          if hasVertex (hashGraph st) (vhash vertex) then mergeLoop body clock (Suc i) st rest
          else
            (case body (clock i) st vertex op of
               (Some e, st1) \<Rightarrow>
                 (case mergeLoop body clock (Suc i) st1 rest of
                    (st2, missing, newVertices) \<Rightarrow> (st2, vhash vertex # missing, newVertices))
             | (None, st1) \<Rightarrow>
                 (case mergeLoop body clock (Suc i) st1 rest of
                    (st2, missing, newVertices) \<Rightarrow> (st2, missing, vertex # newVertices))))"

text \<open>\<open>_mergeWithoutDrp\<close>\<close>

definition mergeWithoutDrp ::
  "env \<Rightarrow> (nat \<Rightarrow> int) \<Rightarrow> DRPObject \<Rightarrow> Vertex list \<Rightarrow> (error + bool \<times> string list) \<times> DRPObject" where
  "mergeWithoutDrp E clock st vs =
     (case mergeLoop (tryMergeWithoutDrp E) clock 0 st vs of
        (st1, missing, newVertices) \<Rightarrow> (Inr (length missing = 0, missing), st1))"

text \<open>
  \<open>_updateDRPState\<close> and \<open>_updateObjectACLState\<close> write the entries of the state computed
  at the frontier back to the live object: only where the live object has the key and
  holds no function there.
\<close>

fun writeBack :: "object \<Rightarrow> DRPState \<Rightarrow> object" where
  "writeBack current [] = current"
| "writeBack current (entry # entries) =
     (case getProp current (fst entry) of
        Some (Data _) \<Rightarrow> writeBack (setProp current (fst entry) (snd entry)) entries
      | _ \<Rightarrow> writeBack current entries)"

definition updateDRPState :: "env \<Rightarrow> DRPObject \<Rightarrow> error + DRPObject" where
  "updateDRPState E st =
     (case drp st of
        None \<Rightarrow> Inl DRPOrHashgraphUndefined
      | Some currentDRP \<Rightarrow>
          (case computeDRPState E st (getFrontier (hashGraph st)) None None of
             Inl e \<Rightarrow> Inl e
           | Inr newState \<Rightarrow> Inr (st\<lparr>drp := Some (writeBack currentDRP newState)\<rparr>)))"

definition updateObjectACLState :: "env \<Rightarrow> DRPObject \<Rightarrow> error + DRPObject" where
  "updateObjectACLState E st =
     (case acl st of
        None \<Rightarrow> Inl ObjectACLOrHashgraphUndefined
      | Some currentObjectACL \<Rightarrow>
          (case computeObjectACLState E st (getFrontier (hashGraph st)) None None of
             Inl e \<Rightarrow> Inl e
           | Inr newState \<Rightarrow> Inr (st\<lparr>acl := Some (writeBack currentObjectACL newState)\<rparr>)))"

text \<open>
  The statements of \<open>_mergeWithDrp\<close> after the loop. They are outside every \<open>try\<close>: an
  exception of the two refreshes reaches the caller.
\<close>

definition refreshAfterMerge ::
  "env \<Rightarrow> DRPObject \<Rightarrow> Vertex list \<Rightarrow> (error + unit) \<times> DRPObject" where
  "refreshAfterMerge E st newVertices =
     (let st1 = st\<lparr>vertices := getAllVertices (hashGraph st)\<rparr> in
      case updateObjectACLState E st1 of
        Inl e \<Rightarrow> (Inl e, st1)
      | Inr st2 \<Rightarrow>
          (case updateDRPState E st2 of
             Inl e \<Rightarrow> (Inl e, st2)
           | Inr st3 \<Rightarrow> (Inr (), notify st3 ''merge'' newVertices)))"

text \<open>\<open>_mergeWithDrp\<close>\<close>

definition mergeWithDrp ::
  "env \<Rightarrow> (nat \<Rightarrow> int) \<Rightarrow> DRPObject \<Rightarrow> Vertex list \<Rightarrow> (error + bool \<times> string list) \<times> DRPObject" where
  "mergeWithDrp E clock st vs =
     (case mergeLoop (tryMergeWithDrp E) clock 0 st vs of
        (st1, missing, newVertices) \<Rightarrow>
          (case refreshAfterMerge E st1 newVertices of
             (Inl e, st2) \<Rightarrow> (Inl e, st2)
           | (Inr _, st2) \<Rightarrow> (Inr (length missing = 0, missing), st2)))"

text \<open>\<open>merge\<close>\<close>

definition merge ::
  "env \<Rightarrow> (nat \<Rightarrow> int) \<Rightarrow> DRPObject \<Rightarrow> Vertex list \<Rightarrow> (error + bool \<times> string list) \<times> DRPObject" where
  "merge E clock st vs =
     (if drp st = None then mergeWithoutDrp E clock st vs else mergeWithDrp E clock st vs)"

section \<open>Local application\<close>

text \<open>
  \<open>deepEqual\<close> of two property reads: data is compared as above, a function or
  \<open>undefined\<close> equals only itself.
\<close>

definition deepEqualValue :: "jsval option \<Rightarrow> jsval option \<Rightarrow> bool" where
  "deepEqualValue a b =
     (case (a, b) of
        (Some (Data x), Some (Data y)) \<Rightarrow> deepEqual x y
      | _ \<Rightarrow> a = b)"

text \<open>
  \<open>Object.keys(preOperationDRP).some((key) => !deepEqual(preOperationDRP[key], drp[key]))\<close>
\<close>

definition stateChanged :: "object \<Rightarrow> object \<Rightarrow> bool" where
  "stateChanged preOperationDRP drpObj =
     list_ex (\<lambda>k. \<not> deepEqualValue (getProp preOperationDRP k) (getProp drpObj k))
       (objectKeys preOperationDRP)"

text \<open>The two cache writes of \<open>callFn\<close> for the new vertex, in the order of the source.\<close>

definition setStatesAfterCall ::
  "env \<Rightarrow> DRPObject \<Rightarrow> Vertex \<Rightarrow> DrpType \<Rightarrow> object \<Rightarrow> error option \<times> DRPObject" where
  "setStatesAfterCall E st vertex kind drpObj =
     (if kind = DRP then
        (case setObjectACLState E st vertex None None of
           Inl e \<Rightarrow> (Some e, st)
         | Inr st1 \<Rightarrow>
             (case setDRPState E st1 vertex None (Some (getDRPState drpObj)) of
                Inl e \<Rightarrow> (Some e, st1)
              | Inr st2 \<Rightarrow> (None, st2)))
      else
        (case setObjectACLState E st vertex None (Some (getDRPState drpObj)) of
           Inl e \<Rightarrow> (Some e, st)
         | Inr st1 \<Rightarrow>
             (case setDRPState E st1 vertex None None of
                Inl e \<Rightarrow> (Some e, st1)
              | Inr st2 \<Rightarrow> (None, st2))))"

text \<open>
  The vertex \<open>callFn\<close> creates; its operation is the object
  \<open>{ drpType: drpType, opType: fn, value: args }\<close>.
\<close>

definition createVertex ::
  "env \<Rightarrow> DRPObject \<Rightarrow> string \<Rightarrow> json list \<Rightarrow> DrpType \<Rightarrow> string list \<Rightarrow> int \<Rightarrow> Vertex" where
  "createVertex E st fn args kind vertexDependencies vertexTimestamp =
     (let vertexOperation =
            \<lparr>drpType = kind, opType = fn, opValue = args,
             opKeys = [DrpTypeKey, OpTypeKey, ValueKey]\<rparr> in
      \<lparr>vhash = computeHash (sha256hex E) (numberToString E) (objPeerId st) (Some vertexOperation)
                 vertexDependencies vertexTimestamp,
       peerId = objPeerId st,
       operation = Some vertexOperation,
       dependencies = vertexDependencies,
       timestamp = vertexTimestamp,
       signature = []\<rparr>)"

text \<open>
  \<open>callFn\<close>. The first component is what the caller gets: a thrown error or the returned
  value, \<open>None\<close> for \<open>undefined\<close>. \<open>now\<close> is the reading of \<open>Date.now()\<close>. The operation that
  is applied to the clone is the object \<open>{ opType: fn, value: args, drpType }\<close>.
\<close>

definition callFn ::
  "env \<Rightarrow> int \<Rightarrow> DRPObject \<Rightarrow> string \<Rightarrow> json list \<Rightarrow> DrpType \<Rightarrow>
     (error + json option) \<times> DRPObject" where
  "callFn E now st fn args kind =
     (let isACL = (kind = ACL);
          vertexDependencies = getFrontier (hashGraph st) in
      case (if isACL then computeObjectACL E st vertexDependencies None None
            else computeDRP E st vertexDependencies None None) of
        Inl e \<Rightarrow> (Inl e, st)
      | Inr preOperationDRP \<Rightarrow>
     (case applyOperation E kind preOperationDRP
             \<lparr>drpType = kind, opType = fn, opValue = args,
              opKeys = [OpTypeKey, ValueKey, DrpTypeKey]\<rparr> of
        Inl e \<Rightarrow> (Inr None, st)
      | Inr (appliedOperationResult, drpObj) \<Rightarrow>
          if \<not> stateChanged preOperationDRP drpObj then (Inr appliedOperationResult, st)
          else
            (let vertex = createVertex E st fn args kind vertexDependencies now;
                 st1 = st\<lparr>hashGraph := addToFrontier (hashGraph st) vertex\<rparr> in
             case setStatesAfterCall E st1 vertex kind drpObj of
               (Some e, st2) \<Rightarrow> (Inl e, st2)
             | (None, st2) \<Rightarrow>
            (case initializeFinalityState E st2 (vhash vertex) of
               Inl e \<Rightarrow> (Inl e, st2)
             | Inr st3 \<Rightarrow>
                 (let st4 = notify (st3\<lparr>vertices := vertices st3 @ [vertex]\<rparr>) ''callFn'' [vertex];
                      st5 = (if \<not> isACL
                             then st4\<lparr>drp := map_option (\<lambda>live. objectAssign live drpObj) (drp st4)\<rparr>
                             else st4\<lparr>acl := map_option (\<lambda>live. objectAssign live drpObj) (acl st4)\<rparr>)
                  in (Inr appliedOperationResult, st5))))))"

section \<open>Construction\<close>

record options =
  optPeerId :: string
  optPublicCredential :: "string option"
  optAcl :: "object option"
  optDrp :: "object option"
  optId :: "string option"

text \<open>The entries \<open>_setRootStates\<close> collects: the properties that hold no function.\<close>

definition nonFunctionEntries :: "object \<Rightarrow> DRPState" where
  "nonFunctionEntries obj = filter (\<lambda>p. case snd p of Func _ \<Rightarrow> False | Data _ \<Rightarrow> True) obj"

text \<open>
  The constructor. \<open>nonce\<close> is the decimal string of the random number that enters the
  default id.
\<close>

definition constructor :: "env \<Rightarrow> string \<Rightarrow> options \<Rightarrow> error + DRPObject" where
  "constructor E nonce opts =
     (if optAcl opts = None \<and> optPublicCredential opts = None then Inl ConstructionError
      else
        (let objAcl =
               (case optAcl opts of
                  Some a \<Rightarrow> a
                | None \<Rightarrow> newObjectACL E [(optPeerId opts, the (optPublicCredential opts))] True);
             g = newHashGraph E
         in Inr \<lparr>oid = (case optId opts of
                           Some i \<Rightarrow> i
                         | None \<Rightarrow> sha256hex E (optPeerId opts @ nonce)),
                 objPeerId = optPeerId opts,
                 vertices = getAllVertices g,
                 acl = Some objAcl,
                 drp = optDrp opts,
                 hashGraph = g,
                 drpStates =
                   [rootHash E \<mapsto>
                      nonFunctionEntries (case optDrp opts of Some d \<Rightarrow> d | None \<Rightarrow> [])],
                 aclStates = [rootHash E \<mapsto> nonFunctionEntries objAcl],
                 originalDRP = optDrp opts,
                 originalObjectACL = Some objAcl,
                 finalityStore = Map.empty,
                 subscriptions = [],
                 delivered = []\<rparr>))"

section \<open>Notions used to state the properties of merge\<close>

text \<open>
  The body of the loop that \<open>merge\<close> runs: \<open>this.drp\<close> selects the function, and neither
  body changes it.
\<close>

definition mergeBody ::
  "env \<Rightarrow> DRPObject \<Rightarrow> int \<Rightarrow> DRPObject \<Rightarrow> Vertex \<Rightarrow> Operation \<Rightarrow> error option \<times> DRPObject" where
  "mergeBody E st = (if drp st = None then tryMergeWithoutDrp E else tryMergeWithDrp E)"






text \<open>
  What neither \<open>try\<close> body of merge touches: the identity, the live objects, the original
  snapshots, the vertices list, the subscribers and what was delivered to them.
\<close>

definition sameOutsideCaches :: "DRPObject \<Rightarrow> DRPObject \<Rightarrow> bool" where
  "sameOutsideCaches st st' =
     (oid st' = oid st \<and> objPeerId st' = objPeerId st \<and> vertices st' = vertices st \<and>
      acl st' = acl st \<and> drp st' = drp st \<and> originalDRP st' = originalDRP st \<and>
      originalObjectACL st' = originalObjectACL st \<and> subscriptions st' = subscriptions st \<and>
      delivered st' = delivered st)"

section \<open>Notions used to state the properties of local application\<close>

text \<open>The pre-image object \<open>callFn\<close> reconstructs at the frontier, for the kind of the call.\<close>

definition preOperationObject :: "env \<Rightarrow> DRPObject \<Rightarrow> DrpType \<Rightarrow> error + object" where
  "preOperationObject E st kind =
     (if kind = ACL then computeObjectACL E st (getFrontier (hashGraph st)) None None
      else computeDRP E st (getFrontier (hashGraph st)) None None)"

text \<open>
  The change of state as the specification words it: some attribute of the
  post-operation clone is not deep-equal to the corresponding attribute of the
  pre-operation object.
\<close>

definition specStateChanged :: "object \<Rightarrow> object \<Rightarrow> bool" where
  "specStateChanged preOperationDRP drpObj =
     list_ex (\<lambda>k. \<not> deepEqualValue (getProp drpObj k) (getProp preOperationDRP k))
       (objectKeys drpObj)"

section \<open>Notions used to state the properties of the state caches\<close>

text \<open>Every vertex of the graph has an entry in both state caches.\<close>

definition cachesCover :: "DRPObject \<Rightarrow> bool" where
  "cachesCover st =
     (\<forall>h. hasVertex (hashGraph st) h \<longrightarrow> drpStates st h \<noteq> None \<and> aclStates st h \<noteq> None)"

text \<open>
  The two cache writes only add entries, and when both complete with an ACL present,
  both caches have an entry for the vertex.
\<close>

definition cachesGrow :: "DRPObject \<Rightarrow> DRPObject \<Rightarrow> bool" where
  "cachesGrow st st' =
     ((\<forall>h. drpStates st h \<noteq> None \<longrightarrow> drpStates st' h \<noteq> None) \<and>
      (\<forall>h. aclStates st h \<noteq> None \<longrightarrow> aclStates st' h \<noteq> None))"

section \<open>Notions used to reason about the write-back to a live object\<close>

text \<open>
  What one entry \<open>(key, value)\<close> of a state does to the value a live object holds at the
  key \<open>k\<close>: data at the entry's key is overwritten, anything else stays.
\<close>

definition overwrite :: "string \<times> jsval \<Rightarrow> string \<Rightarrow> jsval \<Rightarrow> jsval" where
  "overwrite entry k v =
     (if k = fst entry then (case v of Data _ \<Rightarrow> snd entry | Func _ \<Rightarrow> v) else v)"

text \<open>The same for all entries of a state, in order.\<close>

fun settle :: "DRPState \<Rightarrow> string \<Rightarrow> jsval \<Rightarrow> jsval" where
  "settle [] k v = v"
| "settle (entry # entries) k v = settle entries k (overwrite entry k v)"

text \<open>
  An object with \<open>f\<close> applied to the value of every property that is the first of its
  key and whose key is not among \<open>seen\<close>: the properties that reads and writes by key
  reach.
\<close>

fun rewriteFirst :: "(string \<Rightarrow> jsval \<Rightarrow> jsval) \<Rightarrow> string list \<Rightarrow> object \<Rightarrow> object" where
  "rewriteFirst f seen [] = []"
| "rewriteFirst f seen (p # ps) =
     (fst p, if fst p \<in> set seen then snd p else f (fst p) (snd p)) #
     rewriteFirst f (fst p # seen) ps"

text \<open>
  \<open>newVertex\<close>, the exported constructor of a vertex with its hash.
\<close>

definition newVertex ::
  "env \<Rightarrow> string \<Rightarrow> Operation \<Rightarrow> string list \<Rightarrow> int \<Rightarrow> nat list \<Rightarrow> Vertex" where
  "newVertex E p op deps ts sig =
     \<lparr>vhash = computeHash (sha256hex E) (numberToString E) p (Some op) deps ts, peerId = p,
      operation = Some op, dependencies = deps, timestamp = ts, signature = sig\<rparr>"

section \<open>A small instance\<close>

text \<open>
  An instance of the environment on which the definitions can be run: the digest is
  replaced by a short polynomial checksum, numbers are printed with their decimal digits
  (as the runtime prints the integers up to \<open>2 ^ 53\<close>; the instance holds no others), the
  DRP is a counter with the
  methods \<open>add\<close> (adds its argument to \<open>count\<close>), \<open>touch\<close> (changes nothing), \<open>label\<close>
  (creates the attribute \<open>label\<close>) and \<open>fail\<close> (throws), and the ACL keeps a
  \<open>permissionless\<close> flag, its admins and a list of writers, with the methods \<open>grant\<close> and
  \<open>setPermissionless\<close>. The lowest common ancestor of several heads is taken to be the
  root, with the rest of the graph, in insertion order, as the subgraph.
\<close>

definition digitChar :: "nat \<Rightarrow> char" where
  "digitChar n = ''0123456789'' ! n"

function natToString :: "nat \<Rightarrow> string" where
  "natToString n =
     (if n < 10 then [digitChar n] else natToString (n div 10) @ [digitChar (n mod 10)])"
  by pat_completeness auto
termination
  by (relation "measure id") auto

definition demoNumberToString :: "int \<Rightarrow> string" where
  "demoNumberToString i =
     (if i < 0 then CHR ''-'' # natToString (nat (- i)) else natToString (nat i))"

definition demoDigest :: "string \<Rightarrow> string" where
  "demoDigest s = natToString (foldl (\<lambda>h c. (h * 31 + of_char c) mod 1000003) 7 s)"

definition demoCount :: "object \<Rightarrow> int" where
  "demoCount obj = (case getProp obj ''count'' of Some (Data (JNum c)) \<Rightarrow> c | _ \<Rightarrow> 0)"

definition demoWriters :: "object \<Rightarrow> json list" where
  "demoWriters obj = (case getProp obj ''writers'' of Some (Data (JArr ws)) \<Rightarrow> ws | _ \<Rightarrow> [])"

definition demoAdmins :: "object \<Rightarrow> (string \<times> json) list" where
  "demoAdmins obj = (case getProp obj ''admins'' of Some (Data (JObj as)) \<Rightarrow> as | _ \<Rightarrow> [])"

definition demoResolve :: "DrpType \<Rightarrow> object \<Rightarrow> string list \<Rightarrow> callee" where
  "demoResolve kind obj typeParts =
     (case typeParts of
        [name] \<Rightarrow>
          (case kind of
             DRP \<Rightarrow>
               if name = ''add'' then
                 Method (\<lambda>args. case args of
                     [JNum n] \<Rightarrow> Inr (None, setProp obj ''count'' (Data (JNum (demoCount obj + n))))
                   | _ \<Rightarrow> Inl ''add expects a number'')
               else if name = ''touch'' then Method (\<lambda>args. Inr (Some (JNum (demoCount obj)), obj))
               else if name = ''label'' then
                 Method (\<lambda>args. Inr (None, setProp obj ''label'' (Data (JArr args))))
               else if name = ''fail'' then Method (\<lambda>args. Inl ''failed'')
               else NotFunction
           | ACL \<Rightarrow>
               if name = ''grant'' then
                 Method (\<lambda>args. Inr (None, setProp obj ''writers'' (Data (JArr (demoWriters obj @ args)))))
               else if name = ''setPermissionless'' then
                 Method (\<lambda>args. case args of
                     [JBool b] \<Rightarrow> Inr (None, setProp obj ''permissionless'' (Data (JBool b)))
                   | _ \<Rightarrow> Inl ''setPermissionless expects a boolean'')
               else NotFunction)
      | _ \<Rightarrow> InvalidPath)"

definition demoIsWriter :: "object \<Rightarrow> string \<Rightarrow> bool" where
  "demoIsWriter obj p =
     (getProp obj ''permissionless'' = Some (Data (JBool True)) \<or>
      JStr p \<in> set (demoWriters obj) \<or> p \<in> set (map fst (demoAdmins obj)))"

definition demoSigners :: "object \<Rightarrow> (string \<times> string) list" where
  "demoSigners obj = map (\<lambda>a. (fst a, stringify demoNumberToString (snd a))) (demoAdmins obj)"

definition demoNewObjectACL :: "(string \<times> string) list \<Rightarrow> bool \<Rightarrow> object" where
  "demoNewObjectACL admins permissionless =
     [(''permissionless'', Data (JBool permissionless)),
      (''admins'', Data (JObj (map (\<lambda>a. (fst a, JStr (snd a))) admins))),
      (''writers'', Data (JArr []))]"

definition demoRoot :: Vertex where
  "demoRoot =
     \<lparr>vhash = ''root'', peerId = [],
      operation =
        Some \<lparr>drpType = ACL, opType = ''-1'', opValue = [],
              opKeys = [DrpTypeKey, OpTypeKey, ValueKey]\<rparr>,
      dependencies = [], timestamp = 0, signature = []\<rparr>"

definition demoOperationsOf :: "HashGraph \<Rightarrow> string list \<Rightarrow> Operation list" where
  "demoOperationsOf g subgraph =
     concat (map (\<lambda>h. case getVertex g h of
                         Some v \<Rightarrow> (case operation v of Some op \<Rightarrow> [op] | None \<Rightarrow> [])
                       | None \<Rightarrow> []) subgraph)"

definition demoEnv :: env where
  "demoEnv =
     \<lparr>sha256hex = demoDigest,
      numberToString = demoNumberToString,
      rootVertex = demoRoot,
      lowestCommonAncestorMultipleVertices =
        (\<lambda>g heads. Inr (''root'', filter (\<lambda>h. h \<noteq> ''root'') (map fst (hgVertices g)))),
      linearizeOperations = (\<lambda>g lca subgraph. Inr (demoOperationsOf g subgraph)),
      resolveMethod = demoResolve,
      query_isWriter = demoIsWriter,
      query_getFinalitySigners = demoSigners,
      newObjectACL = demoNewObjectACL\<rparr>"

definition demoCounter :: object where
  "demoCounter = [(''count'', Data (JNum 0))]"

text \<open>Peer \<open>p1\<close> creates an object around the counter, and one without a DRP.\<close>

definition demoOptions :: options where
  "demoOptions =
     \<lparr>optPeerId = ''p1'', optPublicCredential = Some ''key1'', optAcl = None,
      optDrp = Some demoCounter, optId = Some ''obj''\<rparr>"

definition demoObject :: DRPObject where
  "demoObject = (case constructor demoEnv ''7'' demoOptions of Inr st \<Rightarrow> subscribe st 0)"

definition demoAclOnlyObject :: DRPObject where
  "demoAclOnlyObject =
     (case constructor demoEnv ''7'' (demoOptions\<lparr>optDrp := None\<rparr>) of Inr st \<Rightarrow> subscribe st 0)"

text \<open>
  Two vertices of peer \<open>p2\<close>: \<open>demoVertexA\<close> on the root, \<open>demoVertexB\<close> on \<open>demoVertexA\<close>.
\<close>

definition demoVertexA :: Vertex where
  "demoVertexA =
     newVertex demoEnv ''p2''
       \<lparr>drpType = DRP, opType = ''add'', opValue = [JNum 1],
        opKeys = [DrpTypeKey, OpTypeKey, ValueKey]\<rparr> [''root''] 5 []"

definition demoVertexB :: Vertex where
  "demoVertexB =
     newVertex demoEnv ''p2''
       \<lparr>drpType = DRP, opType = ''add'', opValue = [JNum 2],
        opKeys = [DrpTypeKey, OpTypeKey, ValueKey]\<rparr> [vhash demoVertexA] 6 []"

section \<open>The hash preimage\<close>

lemma quoteString_keys: \<open>
  quoteString ''operation'' = ''"operation"'' \<and>
  quoteString ''drpType'' = ''"drpType"'' \<and>
  quoteString ''opType'' = ''"opType"'' \<and>
  quoteString ''value'' = ''"value"'' \<and>
  quoteString ''deps'' = ''"deps"'' \<and>
  quoteString ''peerId'' = ''"peerId"'' \<and>
  quoteString ''timestamp'' = ''"timestamp"''\<close>
  by (simp add: quoteString_def escapeChar_def)

lemma operationJson_text: \<open>
  stringify num (operationJson (op\<lparr>opKeys := [DrpTypeKey, OpTypeKey, ValueKey]\<rparr>)) =
    ''{"drpType":'' @ quoteString (drpTypeString (drpType op)) @
    '',"opType":'' @ quoteString (opType op) @
    '',"value":['' @ joinComma (map (stringify num) (opValue op)) @ '']}''\<close>
  \<open>stringify num (operationJson (op\<lparr>opKeys := [OpTypeKey, ValueKey, DrpTypeKey]\<rparr>)) =
    ''{"opType":'' @ quoteString (opType op) @
    '',"value":['' @ joinComma (map (stringify num) (opValue op)) @
    ''],"drpType":'' @ quoteString (drpTypeString (drpType op)) @ ''}''\<close>
  by (simp_all add: operationJson_def operationKeyName_def operationProperty_def member_def
      quoteString_keys comp_def)

lemma sorted_record_keys:
  "sort_key fst [(''operation'', a), (''deps'', b), (''peerId'', c), (''timestamp'', d)] =
     [(''deps'', b), (''operation'', a), (''peerId'', c), (''timestamp'', d)]"
  "sort_key fst [(''deps'', b), (''peerId'', c), (''timestamp'', d)] =
     [(''deps'', b), (''peerId'', c), (''timestamp'', d)]"
  by simp_all

text \<open>
  Claim C1, as amended. The hash of a vertex is the digest of the JSON text of the record
  with its keys in the fixed order \<open>operation\<close>, \<open>deps\<close>, \<open>peerId\<close>, \<open>timestamp\<close>,
  without whitespace, the operation being printed with its keys in the order its own
  object holds them: \<open>drpType\<close>, \<open>opType\<close>, \<open>value\<close> for the object \<open>callFn\<close> hashes, and
  another text for another order. An undefined operation is left out. The keys are not
  sorted: with an operation present the text is never the sorted-key encoding, without
  one it is.
\<close>

theorem computeHash_preimage_layout: \<open>
  computeHash digest num p (Some op) deps ts =
    digest (''{"operation":'' @ stringify num (operationJson op) @
            '',"deps":['' @ joinComma (map quoteString deps) @
            ''],"peerId":'' @ quoteString p @
            '',"timestamp":'' @ num ts @ ''}'') \<and>
  stringify num (operationJson (op\<lparr>opKeys := [DrpTypeKey, OpTypeKey, ValueKey]\<rparr>)) =
    ''{"drpType":'' @ quoteString (drpTypeString (drpType op)) @
    '',"opType":'' @ quoteString (opType op) @
    '',"value":['' @ joinComma (map (stringify num) (opValue op)) @ '']}'' \<and>
  stringify num (operationJson (op\<lparr>opKeys := [OpTypeKey, ValueKey, DrpTypeKey]\<rparr>)) =
    ''{"opType":'' @ quoteString (opType op) @
    '',"value":['' @ joinComma (map (stringify num) (opValue op)) @
    ''],"drpType":'' @ quoteString (drpTypeString (drpType op)) @ ''}'' \<and>
  computeHash digest num p None deps ts =
    digest (''{"deps":['' @ joinComma (map quoteString deps) @
            ''],"peerId":'' @ quoteString p @
            '',"timestamp":'' @ num ts @ ''}'') \<and>
  computeHash digest num p None deps ts = digest (specCanonicalEncoding num p None deps ts) \<and>
  stringify num (hashRecord p (Some op) deps ts) \<noteq> specCanonicalEncoding num p (Some op) deps ts\<close>
proof (intro conjI)
  show \<open>computeHash digest num p (Some op) deps ts =
    digest (''{"operation":'' @ stringify num (operationJson op) @
            '',"deps":['' @ joinComma (map quoteString deps) @
            ''],"peerId":'' @ quoteString p @
            '',"timestamp":'' @ num ts @ ''}'')\<close>
    by (simp add: computeHash_def hashRecord_def member_def quoteString_keys comp_def)
  show \<open>computeHash digest num p None deps ts =
    digest (''{"deps":['' @ joinComma (map quoteString deps) @
            ''],"peerId":'' @ quoteString p @
            '',"timestamp":'' @ num ts @ ''}'')\<close>
    by (simp add: computeHash_def hashRecord_def member_def quoteString_keys comp_def)
  show "computeHash digest num p None deps ts = digest (specCanonicalEncoding num p None deps ts)"
    by (simp add: computeHash_def specCanonicalEncoding_def hashRecord_def
        sorted_record_keys comp_def del: sort_key_simps)
  show "stringify num (hashRecord p (Some op) deps ts) \<noteq>
      specCanonicalEncoding num p (Some op) deps ts"
    by (simp add: specCanonicalEncoding_def hashRecord_def sorted_record_keys member_def
        quoteString_keys del: sort_key_simps)
qed (rule operationJson_text)+

lemma example_text: \<open>
  stringify demoNumberToString (hashRecord ''p1''
     (Some \<lparr>drpType = DRP, opType = ''add'', opValue = [JNum 1],
            opKeys = [DrpTypeKey, OpTypeKey, ValueKey]\<rparr>) [''r''] 5) =
  ''{"operation":{"drpType":"DRP","opType":"add","value":[1]},"deps":["r"],"peerId":"p1","timestamp":5}''\<close>
  by (simp add: hashRecord_def operationJson_def operationKeyName_def operationProperty_def
      member_def quoteString_keys quoteString_def escapeChar_def drpTypeString_def
      demoNumberToString_def digitChar_def)

lemma example_sorted_text: \<open>
  specCanonicalEncoding demoNumberToString ''p1''
     (Some \<lparr>drpType = DRP, opType = ''add'', opValue = [JNum 1],
            opKeys = [DrpTypeKey, OpTypeKey, ValueKey]\<rparr>) [''r''] 5 =
  ''{"deps":["r"],"operation":{"drpType":"DRP","opType":"add","value":[1]},"peerId":"p1","timestamp":5}''\<close>
  by (simp add: specCanonicalEncoding_def hashRecord_def operationJson_def operationKeyName_def
      operationProperty_def member_def quoteString_keys quoteString_def escapeChar_def
      drpTypeString_def demoNumberToString_def digitChar_def)

text \<open>
  Claim C1 as stated fails: with an operation present the text that is digested starts
  with the key \<open>operation\<close>, the sorted-key encoding with the key \<open>deps\<close>. The digest is
  the identity here, so that the two digested texts are compared.
\<close>

theorem computeHash_sorted_keys_counterexample: \<open>
  computeHash (\<lambda>serialized. serialized) demoNumberToString ''p1''
     (Some \<lparr>drpType = DRP, opType = ''add'', opValue = [JNum 1],
            opKeys = [DrpTypeKey, OpTypeKey, ValueKey]\<rparr>) [''r''] 5 =
   ''{"operation":{"drpType":"DRP","opType":"add","value":[1]},"deps":["r"],"peerId":"p1","timestamp":5}'' \<and>
   (\<lambda>serialized. serialized)
     (specCanonicalEncoding demoNumberToString ''p1''
        (Some \<lparr>drpType = DRP, opType = ''add'', opValue = [JNum 1],
               opKeys = [DrpTypeKey, OpTypeKey, ValueKey]\<rparr>) [''r''] 5) =
   ''{"deps":["r"],"operation":{"drpType":"DRP","opType":"add","value":[1]},"peerId":"p1","timestamp":5}'' \<and>
   computeHash (\<lambda>serialized. serialized) demoNumberToString ''p1''
     (Some \<lparr>drpType = DRP, opType = ''add'', opValue = [JNum 1],
            opKeys = [DrpTypeKey, OpTypeKey, ValueKey]\<rparr>) [''r''] 5 \<noteq>
   (\<lambda>serialized. serialized)
     (specCanonicalEncoding demoNumberToString ''p1''
        (Some \<lparr>drpType = DRP, opType = ''add'', opValue = [JNum 1],
               opKeys = [DrpTypeKey, OpTypeKey, ValueKey]\<rparr>) [''r''] 5)\<close>
  by (simp add: computeHash_def example_text example_sorted_text)

section \<open>Evaluating the instance\<close>

lemma demoVertexA_text: \<open>
  stringify demoNumberToString (hashRecord ''p2''
     (Some \<lparr>drpType = DRP, opType = ''add'', opValue = [JNum 1],
           opKeys = [DrpTypeKey, OpTypeKey, ValueKey]\<rparr>) [''root''] 5) =
  ''{"operation":{"drpType":"DRP","opType":"add","value":[1]},"deps":["root"],"peerId":"p2","timestamp":5}''\<close>
  by (simp add: hashRecord_def operationJson_def operationKeyName_def operationProperty_def member_def quoteString_keys quoteString_def
      escapeChar_def drpTypeString_def demoNumberToString_def digitChar_def)

lemma demoVertexA_digest: \<open>
  demoDigest ''{"operation":{"drpType":"DRP","opType":"add","value":[1]},"deps":["root"],"peerId":"p2","timestamp":5}'' =
  ''798284''\<close>
  by (simp add: demoDigest_def digitChar_def)

lemma demoVertexA_hash:
  "computeHash demoDigest demoNumberToString ''p2''
     (Some \<lparr>drpType = DRP, opType = ''add'', opValue = [JNum 1],
           opKeys = [DrpTypeKey, OpTypeKey, ValueKey]\<rparr>) [''root''] 5 = ''798284''"
  by (simp add: computeHash_def demoVertexA_text demoVertexA_digest)

lemma demoVertexB_text: \<open>
  stringify demoNumberToString (hashRecord ''p2''
     (Some \<lparr>drpType = DRP, opType = ''add'', opValue = [JNum 2],
           opKeys = [DrpTypeKey, OpTypeKey, ValueKey]\<rparr>) [''798284''] 6) =
  ''{"operation":{"drpType":"DRP","opType":"add","value":[2]},"deps":["798284"],"peerId":"p2","timestamp":6}''\<close>
  by (simp add: hashRecord_def operationJson_def operationKeyName_def operationProperty_def member_def quoteString_keys quoteString_def
      escapeChar_def drpTypeString_def demoNumberToString_def digitChar_def)

lemma demoVertexB_digest: \<open>
  demoDigest ''{"operation":{"drpType":"DRP","opType":"add","value":[2]},"deps":["798284"],"peerId":"p2","timestamp":6}'' =
  ''291854''\<close>
  by (simp add: demoDigest_def digitChar_def)

lemma demoVertexB_hash:
  "computeHash demoDigest demoNumberToString ''p2''
     (Some \<lparr>drpType = DRP, opType = ''add'', opValue = [JNum 2],
           opKeys = [DrpTypeKey, OpTypeKey, ValueKey]\<rparr>) [''798284''] 6 = ''291854''"
  by (simp add: computeHash_def demoVertexB_text demoVertexB_digest)

lemma demoVertexA_eq:
  "demoVertexA =
     \<lparr>vhash = ''798284'', peerId = ''p2'',
      operation = Some \<lparr>drpType = DRP, opType = ''add'', opValue = [JNum 1],
            opKeys = [DrpTypeKey, OpTypeKey, ValueKey]\<rparr>,
      dependencies = [''root''], timestamp = 5, signature = []\<rparr>"
  by (simp add: demoVertexA_def newVertex_def demoEnv_def demoVertexA_hash)

lemma demoVertexB_eq:
  "demoVertexB =
     \<lparr>vhash = ''291854'', peerId = ''p2'',
      operation = Some \<lparr>drpType = DRP, opType = ''add'', opValue = [JNum 2],
            opKeys = [DrpTypeKey, OpTypeKey, ValueKey]\<rparr>,
      dependencies = [''798284''], timestamp = 6, signature = []\<rparr>"
  by (simp add: demoVertexB_def newVertex_def demoEnv_def demoVertexA_eq demoVertexB_hash)

lemmas demoEnv_fields =
  demoEnv_def rootHash_def demoRoot_def newHashGraph_def

lemma demoObject_eq:
  "demoObject =
     \<lparr>oid = ''obj'', objPeerId = ''p1'', vertices = [demoRoot],
      acl = Some (demoNewObjectACL [(''p1'', ''key1'')] True),
      drp = Some demoCounter,
      hashGraph = \<lparr>hgVertices = [(''root'', demoRoot)], frontier = [''root'']\<rparr>,
      drpStates = [''root'' \<mapsto> demoCounter],
      aclStates = [''root'' \<mapsto> demoNewObjectACL [(''p1'', ''key1'')] True],
      originalDRP = Some demoCounter,
      originalObjectACL = Some (demoNewObjectACL [(''p1'', ''key1'')] True),
      finalityStore = Map.empty, subscriptions = [0], delivered = []\<rparr>"
  by (simp add: demoObject_def constructor_def demoOptions_def demoEnv_fields subscribe_def
      Let_def getAllVertices_def nonFunctionEntries_def demoCounter_def demoNewObjectACL_def)

lemma demoAclOnlyObject_eq:
  "demoAclOnlyObject =
     \<lparr>oid = ''obj'', objPeerId = ''p1'', vertices = [demoRoot],
      acl = Some (demoNewObjectACL [(''p1'', ''key1'')] True),
      drp = None,
      hashGraph = \<lparr>hgVertices = [(''root'', demoRoot)], frontier = [''root'']\<rparr>,
      drpStates = [''root'' \<mapsto> []],
      aclStates = [''root'' \<mapsto> demoNewObjectACL [(''p1'', ''key1'')] True],
      originalDRP = None,
      originalObjectACL = Some (demoNewObjectACL [(''p1'', ''key1'')] True),
      finalityStore = Map.empty, subscriptions = [0], delivered = []\<rparr>"
  by (simp add: demoAclOnlyObject_def constructor_def demoOptions_def demoEnv_fields
      Let_def subscribe_def getAllVertices_def nonFunctionEntries_def demoNewObjectACL_def)

lemma demoEnv_sel:
  "sha256hex demoEnv = demoDigest"
  "numberToString demoEnv = demoNumberToString"
  "rootVertex demoEnv = demoRoot"
  "lowestCommonAncestorMultipleVertices demoEnv =
     (\<lambda>g heads. Inr (''root'', filter (\<lambda>h. h \<noteq> ''root'') (map fst (hgVertices g))))"
  "linearizeOperations demoEnv = (\<lambda>g lca subgraph. Inr (demoOperationsOf g subgraph))"
  "resolveMethod demoEnv = demoResolve"
  "query_isWriter demoEnv = demoIsWriter"
  "query_getFinalitySigners demoEnv = demoSigners"
  "newObjectACL demoEnv = demoNewObjectACL"
  by (simp_all add: demoEnv_def)

lemma demoObject_sel:
  "objPeerId demoObject = ''p1''"
  "vertices demoObject = [demoRoot]"
  "acl demoObject = Some (demoNewObjectACL [(''p1'', ''key1'')] True)"
  "drp demoObject = Some demoCounter"
  "hashGraph demoObject = \<lparr>hgVertices = [(''root'', demoRoot)], frontier = [''root'']\<rparr>"
  "drpStates demoObject = [''root'' \<mapsto> demoCounter]"
  "aclStates demoObject = [''root'' \<mapsto> demoNewObjectACL [(''p1'', ''key1'')] True]"
  "originalDRP demoObject = Some demoCounter"
  "originalObjectACL demoObject = Some (demoNewObjectACL [(''p1'', ''key1'')] True)"
  "finalityStore demoObject = Map.empty"
  "subscriptions demoObject = [0]"
  "delivered demoObject = []"
  by (simp_all add: demoObject_eq)

lemma demoAclOnlyObject_sel:
  "objPeerId demoAclOnlyObject = ''p1''"
  "vertices demoAclOnlyObject = [demoRoot]"
  "acl demoAclOnlyObject = Some (demoNewObjectACL [(''p1'', ''key1'')] True)"
  "drp demoAclOnlyObject = None"
  "hashGraph demoAclOnlyObject = \<lparr>hgVertices = [(''root'', demoRoot)], frontier = [''root'']\<rparr>"
  "drpStates demoAclOnlyObject = [''root'' \<mapsto> []]"
  "aclStates demoAclOnlyObject = [''root'' \<mapsto> demoNewObjectACL [(''p1'', ''key1'')] True]"
  "originalDRP demoAclOnlyObject = None"
  "originalObjectACL demoAclOnlyObject = Some (demoNewObjectACL [(''p1'', ''key1'')] True)"
  "finalityStore demoAclOnlyObject = Map.empty"
  "subscriptions demoAclOnlyObject = [0]"
  "delivered demoAclOnlyObject = []"
  by (simp_all add: demoAclOnlyObject_eq)

section \<open>Vertex validation\<close>

lemma checkDependencies_refuses_iff:
  "checkDependencies g vertex deps \<noteq> None \<longleftrightarrow>
     (\<exists>dep \<in> set deps. getVertex g dep = None) \<or>
     (\<exists>dep \<in> set deps. \<exists>depVertex. getVertex g dep = Some depVertex \<and>
                           timestamp depVertex > timestamp vertex)"
  by (induction deps) (auto split: option.splits)

text \<open>
  Claim C2. \<open>validateVertex\<close> throws exactly when the hash differs from the recomputed
  one, or there is no dependency, or a dependency is not in the graph, or a dependency has
  a later timestamp, or the timestamp is after the wall clock, or the writer check does
  not answer \<open>true\<close>; otherwise it returns.
\<close>

theorem validateVertex_throws_iff:
  "(isl (validateVertex E now st vertex) \<longleftrightarrow>
      vhash vertex \<noteq> computeHash (sha256hex E) (numberToString E) (peerId vertex) (operation vertex)
                        (dependencies vertex) (timestamp vertex) \<or>
      dependencies vertex = [] \<or>
      (\<exists>dep \<in> set (dependencies vertex). getVertex (hashGraph st) dep = None) \<or>
      (\<exists>dep \<in> set (dependencies vertex). \<exists>depVertex.
          getVertex (hashGraph st) dep = Some depVertex \<and>
          timestamp depVertex > timestamp vertex) \<or>
      timestamp vertex > now \<or>
      checkWriterPermission E st (peerId vertex) (dependencies vertex) \<noteq> Inr True) \<and>
   (\<not> isl (validateVertex E now st vertex) \<longleftrightarrow> validateVertex E now st vertex = Inr ())"
proof -
  have deps: "(checkDependencies (hashGraph st) vertex (dependencies vertex) = None) \<longleftrightarrow>
      \<not> ((\<exists>dep \<in> set (dependencies vertex). getVertex (hashGraph st) dep = None) \<or>
      (\<exists>dep \<in> set (dependencies vertex). \<exists>depVertex.
          getVertex (hashGraph st) dep = Some depVertex \<and>
          timestamp depVertex > timestamp vertex))"
    using checkDependencies_refuses_iff [of "hashGraph st" vertex "dependencies vertex"] by blast
  show ?thesis
    unfolding validateVertex_def
    using deps by (auto split: option.splits sum.splits)
qed

lemma demoObject_writer:
  "checkWriterPermission demoEnv demoObject ''p2'' [''root''] = Inr True"
  by (simp add: checkWriterPermission_def computeObjectACL_def computeFrom_def computeLCA_def
      demoObject_sel demoEnv_sel demoIsWriter_def demoNewObjectACL_def getProp_def)

lemma demoVertexA_valid: "validateVertex demoEnv 10 demoObject demoVertexA = Inr ()"
  by (simp add: validateVertex_def demoVertexA_eq demoVertexA_hash demoObject_writer
      demoObject_sel demoEnv_sel getVertex_def demoRoot_def)

theorem validateVertex_throws_iff_witness:
  "validateVertex demoEnv 10 demoObject demoVertexA = Inr () \<and>
   vhash demoVertexA = computeHash (sha256hex demoEnv) (numberToString demoEnv) (peerId demoVertexA)
     (operation demoVertexA) (dependencies demoVertexA) (timestamp demoVertexA) \<and>
   checkWriterPermission demoEnv demoObject (peerId demoVertexA) (dependencies demoVertexA) =
     Inr True \<and>
   isl (validateVertex demoEnv 4 demoObject demoVertexA)"
  using validateVertex_throws_iff [of demoEnv 10 demoObject demoVertexA]
    validateVertex_throws_iff [of demoEnv 4 demoObject demoVertexA] demoVertexA_valid
  by (simp add: demoVertexA_eq)

section \<open>The merge loop\<close>

lemma mergeLoop_fst_Cons:
  "fst (mergeLoop body clock k st (vertex # rest)) =
     fst (mergeLoop body clock (Suc k) (fst (mergeLoop body clock k st [vertex])) rest)"
  by (auto split: option.splits prod.splits)







lemma computeDRP_aclStates [simp]:
  "computeDRP E (st\<lparr>aclStates := x\<rparr>) deps pre vop = computeDRP E st deps pre vop"
  by (simp add: computeDRP_def split: option.splits)


lemma computeObjectACL_Inl_acl:
  "acl st = None \<Longrightarrow> isl (computeObjectACL E st deps pre vop)"
  by (simp add: computeObjectACL_def)




lemma mergeLoop_invariant:
  assumes "\<And>now s vertex op. P s \<Longrightarrow> P (snd (body now s vertex op))" and "P st"
  shows "P (fst (mergeLoop body clock k st vs))"
  using assms(2)
proof (induction vs arbitrary: k st)
  case Nil
  then show ?case by simp
next
  case (Cons vertex rest)
  show ?case
  proof (cases "operation vertex")
    case None
    then show ?thesis using Cons by simp
  next
    case (Some op)
    show ?thesis
    proof (cases "hasVertex (hashGraph st) (vhash vertex)")
      case True
      then show ?thesis using Some Cons by simp
    next
      case False
      have "P (snd (body (clock k) st vertex op))"
        using assms(1) Cons.prems by blast
      then have "P (fst (mergeLoop body clock (Suc k) (snd (body (clock k) st vertex op)) rest))"
        by (rule Cons.IH)
      then show ?thesis
        using Some False by (auto split: prod.splits option.splits)
    qed
  qed
qed

lemma setObjectACLState_frame:
  "setObjectACLState E st vertex pre s = Inr st' \<Longrightarrow>
     st' = st\<lparr>aclStates := aclStates st'\<rparr>"
  by (auto simp: setObjectACLState_def split: if_splits option.splits sum.splits)

lemma setDRPState_frame:
  "setDRPState E st vertex pre s = Inr st' \<Longrightarrow> st' = st\<lparr>drpStates := drpStates st'\<rparr>"
  by (auto simp: setDRPState_def split: option.splits sum.splits)

lemma initializeFinalityState_frame:
  "initializeFinalityState E st h = Inr st' \<Longrightarrow> st' = st\<lparr>finalityStore := finalityStore st'\<rparr>"
  by (auto simp: initializeFinalityState_def split: option.splits)

lemma setStatesForMerge_frame:
  "snd (setStatesForMerge E st vertex op pre) =
     st\<lparr>drpStates := drpStates (snd (setStatesForMerge E st vertex op pre)),
        aclStates := aclStates (snd (setStatesForMerge E st vertex op pre))\<rparr>"
proof (cases "drpType op")
  case ACL
  show ?thesis
    unfolding setStatesForMerge_def
    by (auto simp: ACL dest!: setObjectACLState_frame setDRPState_frame
        split: sum.splits) (metis DRPObject.surjective DRPObject.update_convs(7,8))+
next
  case DRP
  show ?thesis
    unfolding setStatesForMerge_def
    by (auto simp: DRP dest!: setObjectACLState_frame setDRPState_frame
        split: sum.splits) (metis DRPObject.surjective DRPObject.update_convs(7,8))+
qed

text \<open>
  The object the \<open>try\<close> body of \<open>_mergeWithDrp\<close> leaves is the one the cache writes
  left, with at most the vertex added to the graph and the finality store updated.
\<close>

lemma tryMergeWithDrp_shape:
  "snd (tryMergeWithDrp E now st vertex op) = st \<or>
   (\<exists>pre s2. snd (setStatesForMerge E st vertex op pre) = s2 \<and>
      (snd (tryMergeWithDrp E now st vertex op) = s2 \<or>
       (\<exists>g. addVertex (hashGraph s2) vertex = Inr g \<and>
          fst (setStatesForMerge E st vertex op pre) = None \<and>
          (snd (tryMergeWithDrp E now st vertex op) = s2\<lparr>hashGraph := g\<rparr> \<or>
           (\<exists>f. snd (tryMergeWithDrp E now st vertex op) =
                  s2\<lparr>hashGraph := g, finalityStore := f\<rparr>)))))"
proof (cases "validateVertex E now st vertex")
  case (Inl e)
  then show ?thesis by (simp add: tryMergeWithDrp_def)
next
  case valid: (Inr u)
  show ?thesis
  proof (cases "computeLCA E (hashGraph st) (dependencies vertex)")
    case (Inl e)
    then show ?thesis using valid by (simp add: tryMergeWithDrp_def)
  next
    case lca: (Inr pre)
    obtain r s2 where set: "setStatesForMerge E st vertex op pre = (r, s2)"
      by (cases "setStatesForMerge E st vertex op pre") auto
    show ?thesis
    proof (cases r)
      case (Some e)
      then have "snd (tryMergeWithDrp E now st vertex op) = s2"
        using valid lca set by (simp add: tryMergeWithDrp_def)
      then show ?thesis using set by (metis snd_conv)
    next
      case None
      show ?thesis
      proof (cases "addVertex (hashGraph s2) vertex")
        case (Inl e)
        then have "snd (tryMergeWithDrp E now st vertex op) = s2"
          using valid lca set None by (simp add: tryMergeWithDrp_def)
        then show ?thesis using set by (metis snd_conv)
      next
        case add: (Inr g)
        show ?thesis
        proof (cases "initializeFinalityState E (s2\<lparr>hashGraph := g\<rparr>) (vhash vertex)")
          case (Inl e)
          then have "snd (tryMergeWithDrp E now st vertex op) = s2\<lparr>hashGraph := g\<rparr>"
            using valid lca set None add by (simp add: tryMergeWithDrp_def)
          then show ?thesis using set add None by (metis fst_conv snd_conv)
        next
          case (Inr s3)
          then have "snd (tryMergeWithDrp E now st vertex op) = s3"
            using valid lca set None add by (simp add: tryMergeWithDrp_def)
          moreover have "s3 = s2\<lparr>hashGraph := g, finalityStore := finalityStore s3\<rparr>"
            using initializeFinalityState_frame [OF Inr] by simp
          ultimately show ?thesis using set add None by (metis fst_conv snd_conv)
        qed
      qed
    qed
  qed
qed

lemma setStatesForMerge_outside:
  "sameOutsideCaches st (snd (setStatesForMerge E st vertex op pre))"
  by (subst setStatesForMerge_frame) (simp add: sameOutsideCaches_def)

lemma setStatesForMerge_graph:
  "hashGraph (snd (setStatesForMerge E st vertex op pre)) = hashGraph st"
  by (subst setStatesForMerge_frame) simp

lemma tryMergeWithDrp_outside:
  "sameOutsideCaches st (snd (tryMergeWithDrp E now st vertex op))"
  using tryMergeWithDrp_shape [of E now st vertex op]
    setStatesForMerge_outside [of st E vertex op]
  by (auto simp: sameOutsideCaches_def)

lemma tryMergeWithoutDrp_onlyGraph:
  "snd (tryMergeWithoutDrp E now st vertex op) =
     st\<lparr>hashGraph := hashGraph (snd (tryMergeWithoutDrp E now st vertex op))\<rparr>"
  unfolding tryMergeWithoutDrp_def
  by (auto split: sum.splits)

lemma mergeLoop_withDrp_outside:
  "sameOutsideCaches st (fst (mergeLoop (tryMergeWithDrp E) clock k st vs))"
proof (rule mergeLoop_invariant)
  show "sameOutsideCaches st st" by (simp add: sameOutsideCaches_def)
next
  fix now s vertex op
  assume "sameOutsideCaches st s"
  then show "sameOutsideCaches st (snd (tryMergeWithDrp E now s vertex op))"
    using tryMergeWithDrp_outside [of s E now vertex op]
    by (simp add: sameOutsideCaches_def)
qed

lemma mergeLoop_withoutDrp_onlyGraph:
  "fst (mergeLoop (tryMergeWithoutDrp E) clock k st vs) =
     st\<lparr>hashGraph := hashGraph (fst (mergeLoop (tryMergeWithoutDrp E) clock k st vs))\<rparr>"
proof (rule mergeLoop_invariant [where P = "\<lambda>s. s = st\<lparr>hashGraph := hashGraph s\<rparr>"])
  show "st = st\<lparr>hashGraph := hashGraph st\<rparr>" by simp
next
  fix now s vertex op
  assume s: "s = st\<lparr>hashGraph := hashGraph s\<rparr>"
  have "snd (tryMergeWithoutDrp E now s vertex op) =
      s\<lparr>hashGraph := hashGraph (snd (tryMergeWithoutDrp E now s vertex op))\<rparr>"
    by (rule tryMergeWithoutDrp_onlyGraph)
  also have "\<dots> = st\<lparr>hashGraph := hashGraph (snd (tryMergeWithoutDrp E now s vertex op))\<rparr>"
    by (subst s) simp
  finally show "snd (tryMergeWithoutDrp E now s vertex op) =
      st\<lparr>hashGraph := hashGraph (snd (tryMergeWithoutDrp E now s vertex op))\<rparr>" .
qed

lemma mergeLoop_drp_withDrp:
  "drp (fst (mergeLoop (tryMergeWithDrp E) clock k st vs)) = drp st"
  using mergeLoop_withDrp_outside [of st E clock k vs] by (simp add: sameOutsideCaches_def)

lemma mergeLoop_drp_withoutDrp:
  "drp (fst (mergeLoop (tryMergeWithoutDrp E) clock k st vs)) = drp st"
  by (subst mergeLoop_withoutDrp_onlyGraph) simp



lemmas engine_defs =
  merge_def mergeWithDrp_def mergeWithoutDrp_def tryMergeWithDrp_def tryMergeWithoutDrp_def
  setStatesForMerge_def
  refreshAfterMerge_def updateDRPState_def updateObjectACLState_def validateVertex_def
  checkWriterPermission_def computeObjectACL_def computeDRP_def computeFrom_def computeLCA_def
  computeDRPState_def computeObjectACLState_def setObjectACLState_def setDRPState_def
  initializeFinalityState_def initializeState_def applyOperation_def getDRPState_def
  addVertex_def insertVertex_def hasVertex_def getVertex_def getFrontier_def getAllVertices_def
  notify_def getProp_def objectKeys_def Let_def

lemmas demo_defs =
  demoEnv_sel demoVertexA_eq demoVertexB_eq demoVertexA_hash demoVertexB_hash demoRoot_def
  demoResolve_def demoIsWriter_def demoSigners_def demoNewObjectACL_def demoCounter_def
  demoCount_def demoWriters_def demoAdmins_def


lemma demo_merge_withDrp:
  "fst (merge demoEnv (\<lambda>i. 10) demoObject [demoVertexB, demoVertexA]) =
     Inr (False, [''291854''])"
  by (simp add: engine_defs demo_defs demoObject_sel)


section \<open>Admission into the graph\<close>

lemma hasVertex_insertVertex:
  "hasVertex (insertVertex g vertex) h \<longleftrightarrow> hasVertex g h \<or> h = vhash vertex"
  by (auto simp: hasVertex_def insertVertex_def map_add_def split: option.splits)

lemma addVertex_has:
  "addVertex g vertex = Inr g' \<Longrightarrow> hasVertex g' h \<longleftrightarrow> hasVertex g h \<or> h = vhash vertex"
  by (auto simp: addVertex_def hasVertex_insertVertex split: if_splits)

lemma tryMergeWithoutDrp_has:
  "hasVertex (hashGraph st) h \<Longrightarrow>
     hasVertex (hashGraph (snd (tryMergeWithoutDrp E now st vertex op))) h"
  by (auto simp: tryMergeWithoutDrp_def addVertex_has split: sum.splits)

lemma tryMergeWithDrp_graph:
  "hashGraph (snd (tryMergeWithDrp E now st vertex op)) = hashGraph st \<or>
   addVertex (hashGraph st) vertex = Inr (hashGraph (snd (tryMergeWithDrp E now st vertex op)))"
  using tryMergeWithDrp_shape [of E now st vertex op]
    setStatesForMerge_graph [of E st vertex op]
  by auto

lemma tryMergeWithDrp_has:
  "hasVertex (hashGraph st) h \<Longrightarrow>
     hasVertex (hashGraph (snd (tryMergeWithDrp E now st vertex op))) h"
  using tryMergeWithDrp_graph [of E now st vertex op] by (auto simp: addVertex_has)

lemma mergeBody_has:
  "hasVertex (hashGraph s) h \<Longrightarrow> hasVertex (hashGraph (snd (mergeBody E st now s vertex op))) h"
  by (simp add: mergeBody_def tryMergeWithDrp_has tryMergeWithoutDrp_has)

lemma mergeLoop_has:
  "hasVertex (hashGraph s) h \<Longrightarrow>
     hasVertex (hashGraph (fst (mergeLoop (mergeBody E st) clock k s vs))) h"
  by (rule mergeLoop_invariant [where P = "\<lambda>s. hasVertex (hashGraph s) h"])
     (simp_all add: mergeBody_has)




lemma merge_without_drp_frame:
  assumes "drp st = None"
  shows "snd (merge E clock st vs) = st\<lparr>hashGraph := hashGraph (snd (merge E clock st vs))\<rparr>"
proof -
  have snd: "snd (merge E clock st vs) = fst (mergeLoop (tryMergeWithoutDrp E) clock 0 st vs)"
    using assms by (simp add: merge_def mergeWithoutDrp_def split: prod.splits)
  show ?thesis unfolding snd by (rule mergeLoop_withoutDrp_onlyGraph)
qed


lemma demo_merge_aclOnly_state:
  "hashGraph (snd (merge demoEnv (\<lambda>i. 10) demoAclOnlyObject [demoVertexA])) =
     \<lparr>hgVertices = [(''root'', demoRoot), (''798284'', demoVertexA)], frontier = [''798284'']\<rparr>"
  by (simp add: engine_defs demo_defs demoAclOnlyObject_sel)


section \<open>Local application\<close>

lemma callFn_throwing_operation_frame:
  assumes "preOperationObject E st kind = Inr preOperationDRP"
    and "applyOperation E kind preOperationDRP \<lparr>drpType = kind, opType = fn, opValue = args,
          opKeys = [OpTypeKey, ValueKey, DrpTypeKey]\<rparr> = Inl e"
  shows "callFn E now st fn args kind = (Inr None, st)"
  using assms by (simp add: callFn_def preOperationObject_def Let_def)

text \<open>
  Claim C5. When the operation throws on the clone of the pre-image object, \<open>callFn\<close>
  returns \<open>undefined\<close> and the object is as before: the hash graph, the vertices list,
  both state caches, the finality store and what was delivered to the subscribers.
\<close>

theorem callFn_throwing_operation_noop:
  assumes "preOperationObject E st kind = Inr preOperationDRP"
    and "applyOperation E kind preOperationDRP \<lparr>drpType = kind, opType = fn, opValue = args,
          opKeys = [OpTypeKey, ValueKey, DrpTypeKey]\<rparr> = Inl e"
  shows "callFn E now st fn args kind = (Inr None, st) \<and>
    hashGraph (snd (callFn E now st fn args kind)) = hashGraph st \<and>
    vertices (snd (callFn E now st fn args kind)) = vertices st \<and>
    drpStates (snd (callFn E now st fn args kind)) = drpStates st \<and>
    aclStates (snd (callFn E now st fn args kind)) = aclStates st \<and>
    finalityStore (snd (callFn E now st fn args kind)) = finalityStore st \<and>
    delivered (snd (callFn E now st fn args kind)) = delivered st"
proof -
  have "callFn E now st fn args kind = (Inr None, st)"
    by (rule callFn_throwing_operation_frame [OF assms])
  then show ?thesis by simp
qed

lemma demoObject_preOperation: "preOperationObject demoEnv demoObject DRP = Inr demoCounter"
  by (simp add: preOperationObject_def engine_defs demo_defs demoObject_sel)

theorem callFn_throwing_operation_noop_witness:
  "preOperationObject demoEnv demoObject DRP = Inr demoCounter \<and>
   applyOperation demoEnv DRP demoCounter \<lparr>drpType = DRP, opType = ''fail'', opValue = [],
         opKeys = [OpTypeKey, ValueKey, DrpTypeKey]\<rparr> =
     Inl (ErrorWhileApplying ''fail'' ''failed'') \<and>
   callFn demoEnv 7 demoObject ''fail'' [] DRP = (Inr None, demoObject)"
proof -
  have ap: "applyOperation demoEnv DRP demoCounter \<lparr>drpType = DRP, opType = ''fail'', opValue = [],
        opKeys = [OpTypeKey, ValueKey, DrpTypeKey]\<rparr> =
     Inl (ErrorWhileApplying ''fail'' ''failed'')"
    by (simp add: engine_defs demo_defs)
  show ?thesis
    using callFn_throwing_operation_noop [OF demoObject_preOperation ap, of 7] demoObject_preOperation ap
    by simp
qed

lemma setStatesAfterCall_frame:
  "snd (setStatesAfterCall E st vertex kind drpObj) =
     st\<lparr>drpStates := drpStates (snd (setStatesAfterCall E st vertex kind drpObj)),
        aclStates := aclStates (snd (setStatesAfterCall E st vertex kind drpObj))\<rparr>"
proof (cases kind)
  case ACL
  show ?thesis
    unfolding setStatesAfterCall_def
    by (auto simp: ACL dest!: setObjectACLState_frame setDRPState_frame
        split: sum.splits) (metis DRPObject.surjective DRPObject.update_convs(7,8))+
next
  case DRP
  show ?thesis
    unfolding setStatesAfterCall_def
    by (auto simp: DRP dest!: setObjectACLState_frame setDRPState_frame
        split: sum.splits) (metis DRPObject.surjective DRPObject.update_convs(7,8))+
qed

lemma stateChanged_iff:
  "stateChanged preOperationDRP drpObj \<longleftrightarrow>
     (\<exists>k \<in> set (objectKeys preOperationDRP).
        \<not> deepEqualValue (getProp preOperationDRP k) (getProp drpObj k))"
  by (simp add: stateChanged_def list_ex_iff)


text \<open>
  Two objects are deep-equal when they have as many properties and the properties of the
  first are found in the second, under their keys, with deep-equal values: the order of
  the properties plays no part.
\<close>

lemma map_of_comparators:
  "map_of (map (map_prod id deepEqual) kvs) k = map_option deepEqual (map_of kvs k)"
  by (induction kvs) auto

lemma deepEqual_objects:
  "deepEqual (JObj kvs) (JObj lws) \<longleftrightarrow>
     length kvs = length lws \<and>
     (\<forall>k \<in> set (map fst kvs). \<exists>v w.
        map_of kvs k = Some v \<and> map_of lws k = Some w \<and> deepEqual v w)"
proof -
  have "(case (map_of (map (map_prod id deepEqual) kvs) k, map_of lws k) of
           (Some eq, Some w) \<Rightarrow> eq w
         | _ \<Rightarrow> False) \<longleftrightarrow>
        (\<exists>v w. map_of kvs k = Some v \<and> map_of lws k = Some w \<and> deepEqual v w)" for k
    by (cases "map_of kvs k"; cases "map_of lws k") (simp_all add: map_of_comparators)
  then show ?thesis
    by (simp add: membersEqual_def list_all_iff)
qed

text \<open>
  What \<open>callFn\<close> does once the operation has changed the clone: the new vertex enters the
  graph first; the cache writes and the finality state may throw; otherwise the vertex
  is appended to the list, the subscribers are notified and the live object is rebased.
\<close>

lemma callFn_changed:
  assumes "preOperationObject E st kind = Inr preOperationDRP"
    and "applyOperation E kind preOperationDRP \<lparr>drpType = kind, opType = fn, opValue = args,
          opKeys = [OpTypeKey, ValueKey, DrpTypeKey]\<rparr> =
           Inr (res, drpObj)"
    and "stateChanged preOperationDRP drpObj"
    and "vertex = createVertex E st fn args kind (getFrontier (hashGraph st)) now"
    and "st1 = st\<lparr>hashGraph := addToFrontier (hashGraph st) vertex\<rparr>"
    and "setStatesAfterCall E st1 vertex kind drpObj = (r, st2)"
  shows "callFn E now st fn args kind =
     (case r of
        Some e \<Rightarrow> (Inl e, st2)
      | None \<Rightarrow>
          (case initializeFinalityState E st2 (vhash vertex) of
             Inl e \<Rightarrow> (Inl e, st2)
           | Inr st3 \<Rightarrow>
               (Inr res,
                (if kind \<noteq> ACL
                 then (notify (st3\<lparr>vertices := vertices st3 @ [vertex]\<rparr>) ''callFn'' [vertex])
                        \<lparr>drp := map_option (\<lambda>live. objectAssign live drpObj) (drp st3)\<rparr>
                 else (notify (st3\<lparr>vertices := vertices st3 @ [vertex]\<rparr>) ''callFn'' [vertex])
                        \<lparr>acl := map_option (\<lambda>live. objectAssign live drpObj) (acl st3)\<rparr>))))"
  using assms
  by (auto simp: callFn_def preOperationObject_def Let_def notify_def
      split: option.splits sum.splits)

text \<open>
  Claim C4, as amended. \<open>callFn\<close> compares the attributes over the keys of the
  pre-operation object, with \<open>deepEqual\<close>. When none of them changed it returns the result
  of the operation and leaves the object as it was. When one changed, the new vertex is
  added to the hash graph, and if the call returns, it returns the result with the vertex
  appended to the vertices list and the subscribers notified of it.
\<close>

theorem callFn_vertex_iff_state_changed:
  assumes "preOperationObject E st kind = Inr preOperationDRP"
    and "applyOperation E kind preOperationDRP \<lparr>drpType = kind, opType = fn, opValue = args,
          opKeys = [OpTypeKey, ValueKey, DrpTypeKey]\<rparr> =
           Inr (res, drpObj)"
    and "vertex = createVertex E st fn args kind (getFrontier (hashGraph st)) now"
  shows "(stateChanged preOperationDRP drpObj \<longleftrightarrow>
            (\<exists>k \<in> set (objectKeys preOperationDRP).
               \<not> deepEqualValue (getProp preOperationDRP k) (getProp drpObj k))) \<and>
    (\<not> stateChanged preOperationDRP drpObj \<longrightarrow> callFn E now st fn args kind = (Inr res, st)) \<and>
    (stateChanged preOperationDRP drpObj \<longrightarrow>
       hashGraph (snd (callFn E now st fn args kind)) = addToFrontier (hashGraph st) vertex \<and>
       hgVertices (hashGraph (snd (callFn E now st fn args kind))) =
         hgVertices (hashGraph st) @ [(vhash vertex, vertex)] \<and>
       (\<forall>returned. fst (callFn E now st fn args kind) = Inr returned \<longrightarrow>
          returned = res \<and>
          vertices (snd (callFn E now st fn args kind)) = vertices st @ [vertex] \<and>
          delivered (snd (callFn E now st fn args kind)) =
            delivered st @ map (\<lambda>callback. (callback, ''callFn'', [vertex])) (subscriptions st)))"
proof (intro conjI impI)
  show "stateChanged preOperationDRP drpObj \<longleftrightarrow>
      (\<exists>k \<in> set (objectKeys preOperationDRP).
         \<not> deepEqualValue (getProp preOperationDRP k) (getProp drpObj k))"
    by (rule stateChanged_iff)
next
  assume "\<not> stateChanged preOperationDRP drpObj"
  then show "callFn E now st fn args kind = (Inr res, st)"
    using assms(1,2) by (simp add: callFn_def preOperationObject_def Let_def)
next
  assume changed: "stateChanged preOperationDRP drpObj"
  define st1 where "st1 = st\<lparr>hashGraph := addToFrontier (hashGraph st) vertex\<rparr>"
  obtain r st2 where set: "setStatesAfterCall E st1 vertex kind drpObj = (r, st2)"
    by (cases "setStatesAfterCall E st1 vertex kind drpObj") auto
  have st2: "st2 = st1\<lparr>drpStates := drpStates st2, aclStates := aclStates st2\<rparr>"
    using setStatesAfterCall_frame [of E st1 vertex kind drpObj] set by simp
  have st2_fields: "hashGraph st2 = addToFrontier (hashGraph st) vertex"
    "vertices st2 = vertices st" "delivered st2 = delivered st" "subscriptions st2 = subscriptions st"
    by (subst st2, simp add: st1_def)+
  note eq = callFn_changed [OF assms(1,2) changed assms(3) st1_def set]
  have outcome: "(\<exists>e. callFn E now st fn args kind = (Inl e, st2)) \<or>
      (\<exists>st3 live. callFn E now st fn args kind = (Inr res, st3\<lparr>drp := live\<rparr>) \<and>
         hashGraph st3 = hashGraph st2 \<and> vertices st3 = vertices st2 @ [vertex] \<and>
         delivered st3 = delivered st2 @
           map (\<lambda>callback. (callback, ''callFn'', [vertex])) (subscriptions st2)) \<or>
      (\<exists>st3 live. callFn E now st fn args kind = (Inr res, st3\<lparr>acl := live\<rparr>) \<and>
         hashGraph st3 = hashGraph st2 \<and> vertices st3 = vertices st2 @ [vertex] \<and>
         delivered st3 = delivered st2 @
           map (\<lambda>callback. (callback, ''callFn'', [vertex])) (subscriptions st2))"
  proof (cases r)
    case (Some e)
    then show ?thesis unfolding eq by simp
  next
    case None
    show ?thesis
    proof (cases "initializeFinalityState E st2 (vhash vertex)")
      case (Inl e)
      then show ?thesis unfolding eq using None by simp
    next
      case (Inr st3)
      have st3: "st3 = st2\<lparr>finalityStore := finalityStore st3\<rparr>"
        by (rule initializeFinalityState_frame [OF Inr])
      have f: "hashGraph st3 = hashGraph st2" "vertices st3 = vertices st2"
        "delivered st3 = delivered st2" "subscriptions st3 = subscriptions st2"
        by (subst st3, simp)+
      show ?thesis
      proof (cases "kind = ACL")
        case True
        have "callFn E now st fn args kind =
            (Inr res, (notify (st3\<lparr>vertices := vertices st3 @ [vertex]\<rparr>) ''callFn'' [vertex])
                        \<lparr>acl := map_option (\<lambda>live. objectAssign live drpObj) (acl st3)\<rparr>)"
          unfolding eq using None Inr True by simp
        moreover have "hashGraph (notify (st3\<lparr>vertices := vertices st3 @ [vertex]\<rparr>) ''callFn'' [vertex]) =
              hashGraph st2 \<and>
            vertices (notify (st3\<lparr>vertices := vertices st3 @ [vertex]\<rparr>) ''callFn'' [vertex]) =
              vertices st2 @ [vertex] \<and>
            delivered (notify (st3\<lparr>vertices := vertices st3 @ [vertex]\<rparr>) ''callFn'' [vertex]) =
              delivered st2 @ map (\<lambda>callback. (callback, ''callFn'', [vertex])) (subscriptions st2)"
          using f by (simp add: notify_def)
        ultimately show ?thesis by blast
      next
        case False
        have "callFn E now st fn args kind =
            (Inr res, (notify (st3\<lparr>vertices := vertices st3 @ [vertex]\<rparr>) ''callFn'' [vertex])
                        \<lparr>drp := map_option (\<lambda>live. objectAssign live drpObj) (drp st3)\<rparr>)"
          unfolding eq using None Inr False by simp
        moreover have "hashGraph (notify (st3\<lparr>vertices := vertices st3 @ [vertex]\<rparr>) ''callFn'' [vertex]) =
              hashGraph st2 \<and>
            vertices (notify (st3\<lparr>vertices := vertices st3 @ [vertex]\<rparr>) ''callFn'' [vertex]) =
              vertices st2 @ [vertex] \<and>
            delivered (notify (st3\<lparr>vertices := vertices st3 @ [vertex]\<rparr>) ''callFn'' [vertex]) =
              delivered st2 @ map (\<lambda>callback. (callback, ''callFn'', [vertex])) (subscriptions st2)"
          using f by (simp add: notify_def)
        ultimately show ?thesis by blast
      qed
    qed
  qed
  show graph: "hashGraph (snd (callFn E now st fn args kind)) = addToFrontier (hashGraph st) vertex"
    using outcome st2_fields by auto
  show "hgVertices (hashGraph (snd (callFn E now st fn args kind))) =
         hgVertices (hashGraph st) @ [(vhash vertex, vertex)]"
    unfolding graph by (simp add: addToFrontier_def insertVertex_def)
  show "\<forall>returned. fst (callFn E now st fn args kind) = Inr returned \<longrightarrow>
          returned = res \<and>
          vertices (snd (callFn E now st fn args kind)) = vertices st @ [vertex] \<and>
          delivered (snd (callFn E now st fn args kind)) =
            delivered st @ map (\<lambda>callback. (callback, ''callFn'', [vertex])) (subscriptions st)"
    using outcome st2_fields by auto
qed

lemma demo_touch:
  "applyOperation demoEnv DRP demoCounter \<lparr>drpType = DRP, opType = ''touch'', opValue = [],
        opKeys = [OpTypeKey, ValueKey, DrpTypeKey]\<rparr> =
     Inr (Some (JNum 0), demoCounter)"
  by (simp add: engine_defs demo_defs)

lemma demo_add:
  "applyOperation demoEnv DRP demoCounter \<lparr>drpType = DRP, opType = ''add'', opValue = [JNum 3],
        opKeys = [OpTypeKey, ValueKey, DrpTypeKey]\<rparr> =
     Inr (None, [(''count'', Data (JNum 3))])"
  by (simp add: engine_defs demo_defs)

lemma demo_label:
  "applyOperation demoEnv DRP demoCounter \<lparr>drpType = DRP, opType = ''label'', opValue = [JNum 3],
        opKeys = [OpTypeKey, ValueKey, DrpTypeKey]\<rparr> =
     Inr (None, [(''count'', Data (JNum 0)), (''label'', Data (JArr [JNum 3]))])"
  by (simp add: engine_defs demo_defs)

lemma demo_add_returns: "fst (callFn demoEnv 7 demoObject ''add'' [JNum 3] DRP) = Inr None"
  by (simp add: callFn_def setStatesAfterCall_def createVertex_def stateChanged_def
      deepEqualValue_def
      addToFrontier_def engine_defs demo_defs demoObject_sel)

theorem callFn_vertex_iff_state_changed_witness:
  "preOperationObject demoEnv demoObject DRP = Inr demoCounter \<and>
   applyOperation demoEnv DRP demoCounter \<lparr>drpType = DRP, opType = ''touch'', opValue = [],
         opKeys = [OpTypeKey, ValueKey, DrpTypeKey]\<rparr> =
     Inr (Some (JNum 0), demoCounter) \<and>
   callFn demoEnv 7 demoObject ''touch'' [] DRP = (Inr (Some (JNum 0)), demoObject) \<and>
   applyOperation demoEnv DRP demoCounter \<lparr>drpType = DRP, opType = ''add'', opValue = [JNum 3],
         opKeys = [OpTypeKey, ValueKey, DrpTypeKey]\<rparr> =
     Inr (None, [(''count'', Data (JNum 3))]) \<and>
   stateChanged demoCounter [(''count'', Data (JNum 3))] \<and>
   \<not> stateChanged [(''at'', Data (JObj [(''x'', JNum 1), (''y'', JArr [JNum 2])]))]
                    [(''at'', Data (JObj [(''y'', JArr [JNum 2]), (''x'', JNum 1)]))] \<and>
   fst (callFn demoEnv 7 demoObject ''add'' [JNum 3] DRP) = Inr None \<and>
   vertices (snd (callFn demoEnv 7 demoObject ''add'' [JNum 3] DRP)) =
     [demoRoot, createVertex demoEnv demoObject ''add'' [JNum 3] DRP [''root''] 7] \<and>
   delivered (snd (callFn demoEnv 7 demoObject ''add'' [JNum 3] DRP)) =
     [(0, ''callFn'', [createVertex demoEnv demoObject ''add'' [JNum 3] DRP [''root''] 7])]"
proof -
  have same: "\<not> stateChanged demoCounter demoCounter"
    by (simp add: stateChanged_def deepEqualValue_def demoCounter_def objectKeys_def getProp_def)
  have changed: "stateChanged demoCounter [(''count'', Data (JNum 3))]"
    by (simp add: stateChanged_def deepEqualValue_def demoCounter_def objectKeys_def getProp_def)
  have reordered:
    "\<not> stateChanged [(''at'', Data (JObj [(''x'', JNum 1), (''y'', JArr [JNum 2])]))]
                     [(''at'', Data (JObj [(''y'', JArr [JNum 2]), (''x'', JNum 1)]))]"
    by (simp add: stateChanged_def deepEqualValue_def membersEqual_def objectKeys_def
        getProp_def)
  have frontier: "getFrontier (hashGraph demoObject) = [''root'']"
    by (simp add: getFrontier_def demoObject_sel)
  show ?thesis
    using callFn_vertex_iff_state_changed [OF demoObject_preOperation demo_touch refl, of 7]
      callFn_vertex_iff_state_changed [OF demoObject_preOperation demo_add refl, of 7]
      demoObject_preOperation demo_touch demo_add demo_add_returns same changed reordered
      frontier
    by (simp add: demoObject_sel)
qed

text \<open>
  Claim C4 as stated fails: the operation \<open>label\<close> gives the clone an attribute that the
  pre-operation object does not have, yet no vertex is created and the object is as
  before.
\<close>

theorem callFn_new_attribute_counterexample:
  "preOperationObject demoEnv demoObject DRP = Inr demoCounter \<and>
   applyOperation demoEnv DRP demoCounter \<lparr>drpType = DRP, opType = ''label'', opValue = [JNum 3],
         opKeys = [OpTypeKey, ValueKey, DrpTypeKey]\<rparr> =
     Inr (None, [(''count'', Data (JNum 0)), (''label'', Data (JArr [JNum 3]))]) \<and>
   specStateChanged demoCounter [(''count'', Data (JNum 0)), (''label'', Data (JArr [JNum 3]))] \<and>
   callFn demoEnv 7 demoObject ''label'' [JNum 3] DRP = (Inr None, demoObject)"
proof -
  have unchanged: "\<not> stateChanged demoCounter [(''count'', Data (JNum 0)), (''label'', Data (JArr [JNum 3]))]"
    by (simp add: stateChanged_def deepEqualValue_def demoCounter_def objectKeys_def getProp_def)
  have "callFn demoEnv 7 demoObject ''label'' [JNum 3] DRP = (Inr None, demoObject)"
    using demoObject_preOperation demo_label unchanged
    by (simp add: callFn_def preOperationObject_def Let_def)
  moreover have "specStateChanged demoCounter
      [(''count'', Data (JNum 0)), (''label'', Data (JArr [JNum 3]))]"
    by (simp add: specStateChanged_def deepEqualValue_def demoCounter_def objectKeys_def
        getProp_def)
  ultimately show ?thesis using demoObject_preOperation demo_label by simp
qed

section \<open>The writer check\<close>

text \<open>
  Claim C6, as amended. With a DRP registered the check answers \<open>query_isWriter\<close> on the
  ACL reconstructed at the dependencies: the original ACL with the cached state at the
  LCA assigned and the linearized ACL operations replayed; it throws when the
  reconstruction does. Without a DRP it answers \<open>query_isWriter\<close> on the live ACL and
  does not look at the dependencies.
\<close>

theorem checkWriterPermission_by_mode:
  "(drp st \<noteq> None \<longrightarrow>
      checkWriterPermission E st p deps =
        (case computeObjectACL E st deps None None of
           Inl e \<Rightarrow> Inl e
         | Inr aclObj \<Rightarrow> Inr (query_isWriter E aclObj p))) \<and>
   (drp st \<noteq> None \<and> acl st \<noteq> None \<and> originalObjectACL st = Some original \<and>
    computeLCA E (hashGraph st) deps = Inr (lca, ops) \<and> aclStates st lca = Some cached \<and>
    replayOperations E ACL (assignEntries original cached) ops = Inr aclObj \<longrightarrow>
      checkWriterPermission E st p deps = Inr (query_isWriter E aclObj p)) \<and>
   (drp st = None \<and> acl st = Some live \<longrightarrow>
      checkWriterPermission E st p deps = Inr (query_isWriter E live p) \<and>
      checkWriterPermission E st p deps = checkWriterPermission E st p deps')"
  by (auto simp: checkWriterPermission_def computeObjectACL_def computeFrom_def
      split: option.splits sum.splits)

theorem checkWriterPermission_by_mode_witness:
  "drp demoObject \<noteq> None \<and> acl demoObject \<noteq> None \<and>
   originalObjectACL demoObject = Some (demoNewObjectACL [(''p1'', ''key1'')] True) \<and>
   computeLCA demoEnv (hashGraph demoObject) [''root''] = Inr (''root'', []) \<and>
   aclStates demoObject ''root'' = Some (demoNewObjectACL [(''p1'', ''key1'')] True) \<and>
   replayOperations demoEnv ACL
     (assignEntries (demoNewObjectACL [(''p1'', ''key1'')] True)
        (demoNewObjectACL [(''p1'', ''key1'')] True)) [] =
     Inr (demoNewObjectACL [(''p1'', ''key1'')] True) \<and>
   checkWriterPermission demoEnv demoObject ''p2'' [''root''] =
     Inr (query_isWriter demoEnv (demoNewObjectACL [(''p1'', ''key1'')] True) ''p2'') \<and>
   drp demoAclOnlyObject = None \<and>
   acl demoAclOnlyObject = Some (demoNewObjectACL [(''p1'', ''key1'')] True) \<and>
   checkWriterPermission demoEnv demoAclOnlyObject ''p2'' [''nowhere''] =
     Inr (query_isWriter demoEnv (demoNewObjectACL [(''p1'', ''key1'')] True) ''p2'')"
proof -
  have lca: "computeLCA demoEnv (hashGraph demoObject) [''root''] = Inr (''root'', [])"
    by (simp add: computeLCA_def)
  have replay: "replayOperations demoEnv ACL
     (assignEntries (demoNewObjectACL [(''p1'', ''key1'')] True)
        (demoNewObjectACL [(''p1'', ''key1'')] True)) [] =
     Inr (demoNewObjectACL [(''p1'', ''key1'')] True)"
    by (simp add: demoNewObjectACL_def)
  have withDrp: "checkWriterPermission demoEnv demoObject ''p2'' [''root''] =
      Inr (query_isWriter demoEnv (demoNewObjectACL [(''p1'', ''key1'')] True) ''p2'')"
    using checkWriterPermission_by_mode [of demoObject demoEnv "''p2''" "[''root'']"
        "demoNewObjectACL [(''p1'', ''key1'')] True" "''root''" "[]"
        "demoNewObjectACL [(''p1'', ''key1'')] True" "demoNewObjectACL [(''p1'', ''key1'')] True",
        THEN conjunct2, THEN conjunct1] lca replay
    by (simp add: demoObject_sel)
  have withoutDrp: "checkWriterPermission demoEnv demoAclOnlyObject ''p2'' [''nowhere''] =
      Inr (query_isWriter demoEnv (demoNewObjectACL [(''p1'', ''key1'')] True) ''p2'')"
    using checkWriterPermission_by_mode [of demoAclOnlyObject demoEnv "''p2''" "[''nowhere'']" _ _ _ _ _
        "demoNewObjectACL [(''p1'', ''key1'')] True", THEN conjunct2, THEN conjunct2]
    by (simp add: demoAclOnlyObject_sel)
  show ?thesis
    using withDrp withoutDrp lca replay
    by (simp add: demoObject_sel demoAclOnlyObject_sel)
qed

lemma demoVertex_hashes:
  "vhash demoVertexA = ''798284''" "vhash demoVertexB = ''291854''"
  by (simp_all add: demoVertexA_eq demoVertexB_eq)

lemma demo_aclOnly_after_A:
  "snd (merge demoEnv (\<lambda>i. 10) demoAclOnlyObject [demoVertexA]) =
     demoAclOnlyObject\<lparr>hashGraph :=
       \<lparr>hgVertices = [(''root'', demoRoot), (''798284'', demoVertexA)], frontier = [''798284'']\<rparr>\<rparr>"
proof -
  have none: "drp demoAclOnlyObject = None" by (simp add: demoAclOnlyObject_sel)
  have "snd (merge demoEnv (\<lambda>i. 10) demoAclOnlyObject [demoVertexA]) =
      demoAclOnlyObject\<lparr>hashGraph :=
        hashGraph (snd (merge demoEnv (\<lambda>i. 10) demoAclOnlyObject [demoVertexA]))\<rparr>"
    using merge_without_drp_frame [OF none] .
  then show ?thesis by (simp add: demo_merge_aclOnly_state)
qed

text \<open>
  Claim C6 as stated fails. Without a DRP, after \<open>demoVertexA\<close> has been merged the check
  for a vertex on \<open>demoVertexA\<close> answers from the live ACL, while no ACL can be
  reconstructed at that dependency: no state was cached for it.
\<close>

theorem checkWriterPermission_live_acl_counterexample:
  "drp (snd (merge demoEnv (\<lambda>i. 10) demoAclOnlyObject [demoVertexA])) = None \<and>
   checkWriterPermission demoEnv (snd (merge demoEnv (\<lambda>i. 10) demoAclOnlyObject [demoVertexA]))
     ''p2'' [vhash demoVertexA] = Inr True \<and>
   computeObjectACL demoEnv (snd (merge demoEnv (\<lambda>i. 10) demoAclOnlyObject [demoVertexA]))
     [vhash demoVertexA] None None = Inl StateUndefined"
  by (simp add: demo_aclOnly_after_A demoVertex_hashes demoAclOnlyObject_sel
      checkWriterPermission_def computeObjectACL_def computeFrom_def computeLCA_def
      demoEnv_sel demoIsWriter_def demoNewObjectACL_def getProp_def)

section \<open>Construction\<close>

text \<open>
  Claim C9, as amended. The constructor fails, with the construction error, exactly when
  neither an ACL nor a public credential is supplied; supplying both is accepted, and the
  explicit ACL is then the one used. When no ACL is supplied, the ACL is the default one
  built with the creator's peer id and credential as its only admin and
  \<open>permissionless\<close> set.
\<close>

theorem constructor_requires_acl_or_credential:
  "(isl (constructor E nonce opts) \<longleftrightarrow>
      optAcl opts = None \<and> optPublicCredential opts = None) \<and>
   (optAcl opts = None \<and> optPublicCredential opts = None \<longrightarrow>
      constructor E nonce opts = Inl ConstructionError) \<and>
   (optAcl opts = None \<and> optPublicCredential opts = Some credential \<longrightarrow>
      (\<exists>st. constructor E nonce opts = Inr st \<and>
         acl st = Some (newObjectACL E [(optPeerId opts, credential)] True) \<and>
         originalObjectACL st = Some (newObjectACL E [(optPeerId opts, credential)] True))) \<and>
   (optAcl opts = Some explicitAcl \<longrightarrow>
      (\<exists>st. constructor E nonce opts = Inr st \<and> acl st = Some explicitAcl \<and>
         originalObjectACL st = Some explicitAcl))"
  by (auto simp: constructor_def Let_def)

theorem constructor_requires_acl_or_credential_witness:
  "optAcl (demoOptions\<lparr>optPublicCredential := None\<rparr>) = None \<and>
   optPublicCredential (demoOptions\<lparr>optPublicCredential := None\<rparr>) = None \<and>
   constructor demoEnv ''7'' (demoOptions\<lparr>optPublicCredential := None\<rparr>) = Inl ConstructionError \<and>
   optAcl demoOptions = None \<and> optPublicCredential demoOptions = Some ''key1'' \<and>
   (\<exists>st. constructor demoEnv ''7'' demoOptions = Inr st \<and>
      acl st = Some (newObjectACL demoEnv [(''p1'', ''key1'')] True)) \<and>
   optAcl (demoOptions\<lparr>optPublicCredential := None, optAcl := Some []\<rparr>) = Some [] \<and>
   (\<exists>st. constructor demoEnv ''7'' (demoOptions\<lparr>optPublicCredential := None, optAcl := Some []\<rparr>) =
      Inr st \<and> acl st = Some [])"
  using constructor_requires_acl_or_credential
      [of demoEnv "''7''" "demoOptions\<lparr>optPublicCredential := None\<rparr>"]
    constructor_requires_acl_or_credential [of demoEnv "''7''" demoOptions "''key1''"]
    constructor_requires_acl_or_credential
      [of demoEnv "''7''" "demoOptions\<lparr>optPublicCredential := None, optAcl := Some []\<rparr>" _ "[]"]
  by (auto simp: demoOptions_def)

text \<open>
  Claim C9 as stated fails: with both an ACL and a public credential supplied, not exactly
  one of them, the constructor succeeds.
\<close>

theorem constructor_accepts_both_counterexample:
  "optAcl (demoOptions\<lparr>optAcl := Some (demoNewObjectACL [] True)\<rparr>) \<noteq> None \<and>
   optPublicCredential (demoOptions\<lparr>optAcl := Some (demoNewObjectACL [] True)\<rparr>) \<noteq> None \<and>
   \<not> isl (constructor demoEnv ''7'' (demoOptions\<lparr>optAcl := Some (demoNewObjectACL [] True)\<rparr>))"
  by (simp add: constructor_def demoOptions_def Let_def)

section \<open>The state caches\<close>

lemma setObjectACLState_caches:
  "setObjectACLState E st vertex pre s = Inr st' \<Longrightarrow>
     drpStates st' = drpStates st \<and>
     (aclStates st' = aclStates st \<or>
      (\<exists>x. aclStates st' = (aclStates st)(vhash vertex \<mapsto> x))) \<and>
     (acl st \<noteq> None \<longrightarrow> aclStates st' (vhash vertex) \<noteq> None)"
  by (auto simp: setObjectACLState_def split: if_splits option.splits sum.splits)

lemma setDRPState_caches:
  "setDRPState E st vertex pre s = Inr st' \<Longrightarrow>
     aclStates st' = aclStates st \<and>
     (\<exists>x. drpStates st' = (drpStates st)(vhash vertex \<mapsto> x))"
  by (auto simp: setDRPState_def split: option.splits sum.splits)

lemma setStatesForMerge_caches:
  "cachesGrow st (snd (setStatesForMerge E st vertex op pre)) \<and>
   (fst (setStatesForMerge E st vertex op pre) = None \<and> acl st \<noteq> None \<longrightarrow>
      drpStates (snd (setStatesForMerge E st vertex op pre)) (vhash vertex) \<noteq> None \<and>
      aclStates (snd (setStatesForMerge E st vertex op pre)) (vhash vertex) \<noteq> None)"
proof (cases "drpType op")
  case ACL
  show ?thesis
    unfolding setStatesForMerge_def cachesGrow_def
    by (auto simp: ACL dest!: setObjectACLState_caches setDRPState_caches split: sum.splits)
next
  case DRP
  show ?thesis
    unfolding setStatesForMerge_def cachesGrow_def
    by (auto simp: DRP dest!: setObjectACLState_caches setDRPState_caches split: sum.splits)
qed

lemma setStatesAfterCall_caches:
  "cachesGrow st (snd (setStatesAfterCall E st vertex kind drpObj)) \<and>
   (fst (setStatesAfterCall E st vertex kind drpObj) = None \<and> acl st \<noteq> None \<longrightarrow>
      drpStates (snd (setStatesAfterCall E st vertex kind drpObj)) (vhash vertex) \<noteq> None \<and>
      aclStates (snd (setStatesAfterCall E st vertex kind drpObj)) (vhash vertex) \<noteq> None)"
proof (cases kind)
  case ACL
  show ?thesis
    unfolding setStatesAfterCall_def cachesGrow_def
    by (auto simp: ACL dest!: setObjectACLState_caches setDRPState_caches split: sum.splits)
next
  case DRP
  show ?thesis
    unfolding setStatesAfterCall_def cachesGrow_def
    by (auto simp: DRP dest!: setObjectACLState_caches setDRPState_caches split: sum.splits)
qed

lemma cachesCover_grow:
  "cachesCover st \<Longrightarrow> cachesGrow st st' \<Longrightarrow> hashGraph st' = hashGraph st \<Longrightarrow> cachesCover st'"
  by (simp add: cachesCover_def cachesGrow_def)

lemma cachesCover_add:
  assumes "cachesCover st" and "cachesGrow st s2" and "hashGraph s2 = hashGraph st"
    and "addVertex (hashGraph s2) vertex = Inr g"
    and "drpStates s2 (vhash vertex) \<noteq> None" and "aclStates s2 (vhash vertex) \<noteq> None"
    and "drpStates st' = drpStates s2" and "aclStates st' = aclStates s2" and "hashGraph st' = g"
  shows "cachesCover st'"
  using assms addVertex_has [OF assms(4)]
  by (auto simp: cachesCover_def cachesGrow_def)

lemma tryMergeWithDrp_cachesCover:
  assumes "cachesCover st" and "acl st \<noteq> None"
  shows "cachesCover (snd (tryMergeWithDrp E now st vertex op))"
proof -
  let ?r = "snd (tryMergeWithDrp E now st vertex op)"
  consider "?r = st"
    | pre where "?r = snd (setStatesForMerge E st vertex op pre)"
    | pre g where "addVertex (hashGraph (snd (setStatesForMerge E st vertex op pre))) vertex = Inr g"
        and "fst (setStatesForMerge E st vertex op pre) = None"
        and "?r = (snd (setStatesForMerge E st vertex op pre))\<lparr>hashGraph := g\<rparr> \<or>
             (\<exists>f. ?r = (snd (setStatesForMerge E st vertex op pre))\<lparr>hashGraph := g, finalityStore := f\<rparr>)"
    using tryMergeWithDrp_shape [of E now st vertex op] by blast
  then show ?thesis
  proof cases
    case 1
    then show ?thesis using assms(1) by simp
  next
    case 2
    show ?thesis
      unfolding 2
      using assms(1) setStatesForMerge_caches [of st E vertex op pre]
        setStatesForMerge_graph [of E st vertex op pre]
      by (blast intro: cachesCover_grow)
  next
    case 3
    let ?s2 = "snd (setStatesForMerge E st vertex op pre)"
    have grow: "cachesGrow st ?s2" and set: "drpStates ?s2 (vhash vertex) \<noteq> None"
      "aclStates ?s2 (vhash vertex) \<noteq> None"
      using setStatesForMerge_caches [of st E vertex op pre] 3(2) assms(2) by blast+
    have fields: "drpStates ?r = drpStates ?s2 \<and> aclStates ?r = aclStates ?s2 \<and> hashGraph ?r = g"
      using 3(3) by auto
    show ?thesis
      using cachesCover_add [OF assms(1) grow setStatesForMerge_graph 3(1) set] fields by blast
  qed
qed

lemma mergeLoop_withDrp_cachesCover:
  assumes "cachesCover st" and "acl st \<noteq> None"
  shows "cachesCover (fst (mergeLoop (tryMergeWithDrp E) clock k st vs))"
proof -
  have "cachesCover (fst (mergeLoop (tryMergeWithDrp E) clock k st vs)) \<and>
      acl (fst (mergeLoop (tryMergeWithDrp E) clock k st vs)) \<noteq> None"
  proof (rule mergeLoop_invariant [where P = "\<lambda>s. cachesCover s \<and> acl s \<noteq> None"])
    show "cachesCover st \<and> acl st \<noteq> None" using assms by simp
  next
    fix now s vertex op
    assume "cachesCover s \<and> acl s \<noteq> None"
    then show "cachesCover (snd (tryMergeWithDrp E now s vertex op)) \<and>
        acl (snd (tryMergeWithDrp E now s vertex op)) \<noteq> None"
      using tryMergeWithDrp_cachesCover [of s E now vertex op]
        tryMergeWithDrp_outside [of s E now vertex op]
      by (simp add: sameOutsideCaches_def)
  qed
  then show ?thesis by simp
qed

lemma refreshAfterMerge_frame:
  "hashGraph (snd (refreshAfterMerge E st newVertices)) = hashGraph st \<and>
   drpStates (snd (refreshAfterMerge E st newVertices)) = drpStates st \<and>
   aclStates (snd (refreshAfterMerge E st newVertices)) = aclStates st \<and>
   finalityStore (snd (refreshAfterMerge E st newVertices)) = finalityStore st \<and>
   (acl st \<noteq> None \<longrightarrow> acl (snd (refreshAfterMerge E st newVertices)) \<noteq> None) \<and>
   (drp st \<noteq> None \<longrightarrow> drp (snd (refreshAfterMerge E st newVertices)) \<noteq> None)"
  by (auto simp: refreshAfterMerge_def updateObjectACLState_def updateDRPState_def notify_def
      Let_def split: option.splits sum.splits)

lemma merge_withDrp_snd:
  "drp st \<noteq> None \<Longrightarrow>
     snd (merge E clock st vs) =
       snd (refreshAfterMerge E (fst (mergeLoop (tryMergeWithDrp E) clock 0 st vs))
              (snd (snd (mergeLoop (tryMergeWithDrp E) clock 0 st vs))))"
  by (auto simp: merge_def mergeWithDrp_def split: prod.splits sum.splits)

lemma merge_withDrp_cachesCover:
  assumes "drp st \<noteq> None" and "acl st \<noteq> None" and "cachesCover st"
  shows "cachesCover (snd (merge E clock st vs)) \<and> acl (snd (merge E clock st vs)) \<noteq> None \<and>
    drp (snd (merge E clock st vs)) \<noteq> None"
proof -
  let ?s1 = "fst (mergeLoop (tryMergeWithDrp E) clock 0 st vs)"
  have cover: "cachesCover ?s1"
    by (rule mergeLoop_withDrp_cachesCover [OF assms(3,2)])
  have live: "acl ?s1 \<noteq> None" "drp ?s1 \<noteq> None"
    using mergeLoop_withDrp_outside [of st E clock 0 vs] assms(1,2)
    by (simp_all add: sameOutsideCaches_def)
  show ?thesis
    unfolding merge_withDrp_snd [OF assms(1)]
    using cover live refreshAfterMerge_frame [of E ?s1]
    by (simp add: cachesCover_def)
qed

lemma callFn_cachesCover:
  assumes "cachesCover st" and "fst (callFn E now st fn args kind) = Inr returned"
  shows "cachesCover (snd (callFn E now st fn args kind))"
proof (cases "preOperationObject E st kind")
  case (Inl e)
  then show ?thesis using assms(2) by (simp add: callFn_def preOperationObject_def Let_def)
next
  case pre: (Inr preOperationDRP)
  show ?thesis
  proof (cases "applyOperation E kind preOperationDRP \<lparr>drpType = kind, opType = fn, opValue = args,
        opKeys = [OpTypeKey, ValueKey, DrpTypeKey]\<rparr>")
    case (Inl e)
    then show ?thesis
      using callFn_throwing_operation_frame [OF pre Inl, of now] assms(1) by simp
  next
    case (Inr applied)
    obtain res drpObj where applied: "applied = (res, drpObj)" by (cases applied) auto
    note ap = Inr [unfolded applied]
    show ?thesis
    proof (cases "stateChanged preOperationDRP drpObj")
      case False
      then show ?thesis
        using pre ap assms(1) by (simp add: callFn_def preOperationObject_def Let_def)
    next
      case changed: True
      define vertex where "vertex = createVertex E st fn args kind (getFrontier (hashGraph st)) now"
      define st1 where "st1 = st\<lparr>hashGraph := addToFrontier (hashGraph st) vertex\<rparr>"
      obtain r st2 where set: "setStatesAfterCall E st1 vertex kind drpObj = (r, st2)"
        by (cases "setStatesAfterCall E st1 vertex kind drpObj") auto
      note eq = callFn_changed [OF pre ap changed vertex_def st1_def set]
      have r: "r = None" using assms(2) unfolding eq by (cases r) simp_all
      obtain st3 where fin: "initializeFinalityState E st2 (vhash vertex) = Inr st3"
        using assms(2) unfolding eq r
        by (cases "initializeFinalityState E st2 (vhash vertex)") simp_all
      have st2: "st2 = st1\<lparr>drpStates := drpStates st2, aclStates := aclStates st2\<rparr>"
        using setStatesAfterCall_frame [of E st1 vertex kind drpObj] set by simp
      have acl2: "acl st2 \<noteq> None"
        using fin by (auto simp: initializeFinalityState_def split: option.splits)
      have acl1: "acl st1 \<noteq> None"
        using acl2 by (subst (asm) st2) simp
      have caches: "cachesGrow st1 st2" "drpStates st2 (vhash vertex) \<noteq> None"
        "aclStates st2 (vhash vertex) \<noteq> None"
        using setStatesAfterCall_caches [of st1 E vertex kind drpObj] set r acl1 by auto
      have graph2: "hashGraph st2 = insertVertex (hashGraph st) vertex"
        by (subst st2) (simp add: st1_def addToFrontier_def)
      have st3: "st3 = st2\<lparr>finalityStore := finalityStore st3\<rparr>"
        by (rule initializeFinalityState_frame [OF fin])
      have f3: "hashGraph st3 = hashGraph st2" "drpStates st3 = drpStates st2"
        "aclStates st3 = aclStates st2"
        by (subst st3, simp)+
      have cover3: "cachesCover st3"
        using assms(1) caches graph2 f3
        by (auto simp: cachesCover_def cachesGrow_def hasVertex_insertVertex st1_def)
      show ?thesis
        unfolding eq r using fin cover3 by (simp add: cachesCover_def notify_def)
    qed
  qed
qed

lemma constructor_cachesCover:
  "constructor E nonce opts = Inr st \<Longrightarrow> cachesCover st \<and> acl st \<noteq> None"
  by (auto simp: constructor_def Let_def cachesCover_def hasVertex_def newHashGraph_def
      split: if_splits)

text \<open>
  Claim C7, as amended. The constructor leaves an object in which every vertex of the
  graph has an entry in both state caches. With a DRP registered \<open>merge\<close> keeps it so,
  and so does every call of \<open>callFn\<close> that returns. (Without a DRP \<open>merge\<close> admits
  vertices and writes no cache entry.)
\<close>

theorem caches_cover_admitted_vertices:
  "(constructor E nonce opts = Inr st0 \<longrightarrow> cachesCover st0 \<and> acl st0 \<noteq> None) \<and>
   (drp st \<noteq> None \<and> acl st \<noteq> None \<and> cachesCover st \<longrightarrow>
      cachesCover (snd (merge E clock st vs)) \<and> acl (snd (merge E clock st vs)) \<noteq> None \<and>
      drp (snd (merge E clock st vs)) \<noteq> None) \<and>
   (cachesCover st \<and> fst (callFn E now st fn args kind) = Inr returned \<longrightarrow>
      cachesCover (snd (callFn E now st fn args kind)))"
  using constructor_cachesCover [of E nonce opts st0] merge_withDrp_cachesCover [of st E clock vs]
    callFn_cachesCover [of st E now fn args kind returned]
  by blast

lemma demoObject_covered: "cachesCover demoObject"
  by (simp add: cachesCover_def hasVertex_def demoObject_sel)

lemma demo_merge_A_graph:
  "hasVertex (hashGraph (snd (merge demoEnv (\<lambda>i. 10) demoObject [demoVertexA]))) ''798284''"
  by (simp add: engine_defs demo_defs demoObject_sel)

theorem caches_cover_admitted_vertices_witness:
  "(\<exists>st0. constructor demoEnv ''7'' demoOptions = Inr st0 \<and> cachesCover st0) \<and>
   drp demoObject \<noteq> None \<and> acl demoObject \<noteq> None \<and> cachesCover demoObject \<and>
   hasVertex (hashGraph (snd (merge demoEnv (\<lambda>i. 10) demoObject [demoVertexA]))) (vhash demoVertexA) \<and>
   drpStates (snd (merge demoEnv (\<lambda>i. 10) demoObject [demoVertexA])) (vhash demoVertexA) \<noteq> None \<and>
   aclStates (snd (merge demoEnv (\<lambda>i. 10) demoObject [demoVertexA])) (vhash demoVertexA) \<noteq> None \<and>
   fst (callFn demoEnv 7 demoObject ''add'' [JNum 3] DRP) = Inr None \<and>
   cachesCover (snd (callFn demoEnv 7 demoObject ''add'' [JNum 3] DRP))"
proof -
  obtain st0 where st0: "constructor demoEnv ''7'' demoOptions = Inr st0"
    by (simp add: constructor_def demoOptions_def Let_def)
  have c0: "cachesCover st0"
    using caches_cover_admitted_vertices
        [where E = demoEnv and nonce = "''7''" and opts = demoOptions and ?st0.0 = st0] st0 by blast
  have live: "drp demoObject \<noteq> None" "acl demoObject \<noteq> None"
    by (simp_all add: demoObject_sel)
  have merged: "cachesCover (snd (merge demoEnv (\<lambda>i. 10) demoObject [demoVertexA]))"
    using caches_cover_admitted_vertices
        [where E = demoEnv and st = demoObject and clock = "\<lambda>i. 10" and vs = "[demoVertexA]"]
      live demoObject_covered by blast
  have entries:
    "drpStates (snd (merge demoEnv (\<lambda>i. 10) demoObject [demoVertexA])) ''798284'' \<noteq> None \<and>
     aclStates (snd (merge demoEnv (\<lambda>i. 10) demoObject [demoVertexA])) ''798284'' \<noteq> None"
    using merged demo_merge_A_graph unfolding cachesCover_def by blast
  have called: "cachesCover (snd (callFn demoEnv 7 demoObject ''add'' [JNum 3] DRP))"
    using caches_cover_admitted_vertices
        [where E = demoEnv and st = demoObject and now = 7 and fn = "''add''"
           and args = "[JNum 3]" and kind = DRP and returned = None]
      demoObject_covered demo_add_returns by blast
  show ?thesis
    using st0 c0 live demoObject_covered demo_merge_A_graph entries demo_add_returns called
    by (simp add: demoVertex_hashes)
qed

text \<open>
  Claim C7 as stated fails: without a DRP, \<open>merge\<close> admits \<open>demoVertexA\<close> to the graph and
  neither cache has an entry at its hash.
\<close>

theorem caches_missing_without_drp_counterexample:
  "fst (merge demoEnv (\<lambda>i. 10) demoAclOnlyObject [demoVertexA]) = Inr (True, []) \<and>
   hasVertex (hashGraph (snd (merge demoEnv (\<lambda>i. 10) demoAclOnlyObject [demoVertexA])))
     (vhash demoVertexA) \<and>
   drpStates (snd (merge demoEnv (\<lambda>i. 10) demoAclOnlyObject [demoVertexA])) (vhash demoVertexA) = None \<and>
   aclStates (snd (merge demoEnv (\<lambda>i. 10) demoAclOnlyObject [demoVertexA])) (vhash demoVertexA) = None"
proof -
  have "fst (merge demoEnv (\<lambda>i. 10) demoAclOnlyObject [demoVertexA]) = Inr (True, [])"
    by (simp add: engine_defs demo_defs demoAclOnlyObject_sel)
  then show ?thesis
    by (simp add: demo_aclOnly_after_A demoVertex_hashes demoAclOnlyObject_sel hasVertex_def)
qed

section \<open>Repeating a merge\<close>

lemma demo_merge_BA_graph:
  "hashGraph (snd (merge demoEnv (\<lambda>i. 10) demoObject [demoVertexB, demoVertexA])) =
     \<lparr>hgVertices = [(''root'', demoRoot), (''798284'', demoVertexA)], frontier = [''798284'']\<rparr>"
  by (simp add: engine_defs demo_defs demoObject_sel)

lemma demo_merge_BA_twice:
  "fst (merge demoEnv (\<lambda>i. 10)
          (snd (merge demoEnv (\<lambda>i. 10) demoObject [demoVertexB, demoVertexA]))
          [demoVertexB, demoVertexA]) = Inr (True, [])"
  by (simp add: engine_defs demo_defs demoObject_sel writeBack.simps)

text \<open>
  Claim C8 as stated fails. The batch lists \<open>demoVertexB\<close> before its dependency
  \<open>demoVertexA\<close>: the first \<open>merge\<close> admits \<open>demoVertexA\<close> and reports \<open>demoVertexB\<close>
  missing; the second admits \<open>demoVertexB\<close> and reports nothing missing.
\<close>

theorem merge_twice_counterexample:
  "fst (merge demoEnv (\<lambda>i. 10) demoObject [demoVertexB, demoVertexA]) =
     Inr (False, [vhash demoVertexB]) \<and>
   fst (merge demoEnv (\<lambda>i. 10)
          (snd (merge demoEnv (\<lambda>i. 10) demoObject [demoVertexB, demoVertexA]))
          [demoVertexB, demoVertexA]) = Inr (True, []) \<and>
   \<not> hasVertex (hashGraph (snd (merge demoEnv (\<lambda>i. 10) demoObject [demoVertexB, demoVertexA])))
       (vhash demoVertexB) \<and>
   hasVertex
     (hashGraph (snd (merge demoEnv (\<lambda>i. 10)
        (snd (merge demoEnv (\<lambda>i. 10) demoObject [demoVertexB, demoVertexA]))
        [demoVertexB, demoVertexA])))
     (vhash demoVertexB)"
proof -
  have later: "hasVertex
     (hashGraph (snd (merge demoEnv (\<lambda>i. 10)
        (snd (merge demoEnv (\<lambda>i. 10) demoObject [demoVertexB, demoVertexA]))
        [demoVertexB, demoVertexA]))) ''291854''"
    by (simp add: engine_defs demo_defs demoObject_sel writeBack.simps)
  have notYet: "\<not> hasVertex
      (hashGraph (snd (merge demoEnv (\<lambda>i. 10) demoObject [demoVertexB, demoVertexA]))) ''291854''"
    by (simp add: demo_merge_BA_graph hasVertex_def)
  show ?thesis
    using later notYet demo_merge_withDrp demo_merge_BA_twice
    by (simp add: demoVertex_hashes)
qed

subsection \<open>Writing a state back twice\<close>

lemma rewriteFirst_seen:
  "(\<And>k v. k \<notin> set seen \<Longrightarrow> f k v = v) \<Longrightarrow> rewriteFirst f seen ps = ps"
proof (induction ps arbitrary: seen)
  case Nil
  show ?case by simp
next
  case (Cons p ps)
  have "rewriteFirst f (fst p # seen) ps = ps"
    by (rule Cons.IH) (simp add: Cons.prems)
  then show ?case using Cons.prems [of "fst p" "snd p"] by auto
qed

lemma rewriteFirst_compose:
  "rewriteFirst f seen (rewriteFirst g seen ps) = rewriteFirst (\<lambda>k v. f k (g k v)) seen ps"
  by (induction ps arbitrary: seen) auto

lemma setProp_rewriteFirst:
  assumes "fst entry \<notin> set seen"
  shows "(case getProp ps (fst entry) of
            Some (Data x) \<Rightarrow> setProp ps (fst entry) (snd entry)
          | _ \<Rightarrow> ps) = rewriteFirst (overwrite entry) seen ps"
  using assms
proof (induction ps arbitrary: seen)
  case Nil
  show ?case by (simp add: getProp_def)
next
  case (Cons p ps)
  show ?case
  proof (cases "fst p = fst entry")
    case True
    have rest: "rewriteFirst (overwrite entry) (fst p # seen) ps = ps"
      by (rule rewriteFirst_seen) (simp add: overwrite_def True)
    obtain v where p: "p = (fst entry, v)" using True by (cases p) auto
    have rhs: "rewriteFirst (overwrite entry) seen (p # ps) =
        (fst entry, overwrite entry (fst entry) v) # ps"
      using Cons.prems rest by (simp add: p)
    have lhs: "(case getProp (p # ps) (fst entry) of
            Some (Data x) \<Rightarrow> setProp (p # ps) (fst entry) (snd entry)
          | _ \<Rightarrow> p # ps) = (fst entry, overwrite entry (fst entry) v) # ps"
      by (cases v) (simp_all add: p getProp_def overwrite_def)
    show ?thesis unfolding lhs rhs ..
  next
    case False
    have "fst entry \<notin> set (fst p # seen)" using False Cons.prems by simp
    then have IH: "(case getProp ps (fst entry) of
            Some (Data x) \<Rightarrow> setProp ps (fst entry) (snd entry)
          | _ \<Rightarrow> ps) = rewriteFirst (overwrite entry) (fst p # seen) ps"
      by (rule Cons.IH)
    have get: "getProp (p # ps) (fst entry) = getProp ps (fst entry)"
      using False by (cases p) (auto simp: getProp_def)
    have head: "(if fst p \<in> set seen then snd p else overwrite entry (fst p) (snd p)) = snd p"
      using False by (simp add: overwrite_def)
    show ?thesis
      unfolding get rewriteFirst.simps head IH [symmetric]
      using False by (auto split: option.splits jsval.splits)
  qed
qed

lemma writeBack_rewriteFirst: "writeBack current entries = rewriteFirst (settle entries) [] current"
proof (induction entries arbitrary: current)
  case Nil
  show ?case by (simp add: rewriteFirst_seen)
next
  case (Cons entry entries)
  have step: "writeBack current (entry # entries) =
      writeBack (rewriteFirst (overwrite entry) [] current) entries"
    using setProp_rewriteFirst [of entry "[]" current]
    by (auto split: option.splits jsval.splits)
  have "(\<lambda>k v. settle entries k (overwrite entry k v)) = settle (entry # entries)"
    by (intro ext) simp
  then show ?case
    unfolding step Cons.IH rewriteFirst_compose by simp
qed

lemma settle_Func: "settle entries k (Func f) = Func f"
  by (induction entries) (auto simp: overwrite_def)

lemma settle_no_entry: "k \<notin> fst ` set entries \<Longrightarrow> settle entries k v = v"
  by (induction entries arbitrary: v) (auto simp: overwrite_def)

lemma settle_Data_same:
  "k \<in> fst ` set entries \<Longrightarrow> settle entries k (Data x) = settle entries k (Data y)"
proof (induction entries)
  case Nil
  then show ?case by simp
next
  case (Cons entry entries)
  show ?case
  proof (cases "k = fst entry")
    case True
    then show ?thesis by (simp add: overwrite_def)
  next
    case False
    then show ?thesis using Cons by (auto simp: overwrite_def)
  qed
qed

lemma settle_idem: "settle entries k (settle entries k v) = settle entries k v"
proof (cases v)
  case (Func f)
  then show ?thesis by (simp add: settle_Func)
next
  case (Data x)
  show ?thesis
  proof (cases "settle entries k v")
    case (Func f)
    then show ?thesis by (simp add: settle_Func)
  next
    case settled: (Data y)
    show ?thesis
    proof (cases "k \<in> fst ` set entries")
      case True
      then show ?thesis using settle_Data_same [OF True, of y x] Data settled by simp
    next
      case False
      then show ?thesis by (simp add: settle_no_entry)
    qed
  qed
qed

text \<open>Writing the same state back a second time changes nothing.\<close>

lemma writeBack_idem: "writeBack (writeBack current entries) entries = writeBack current entries"
  by (simp add: writeBack_rewriteFirst rewriteFirst_compose settle_idem)

subsection \<open>A second merge of a batch that was merged completely\<close>

lemma mergeLoop_all_present:
  "(\<forall>vertex \<in> set vs. operation vertex \<noteq> None \<longrightarrow> hasVertex (hashGraph st) (vhash vertex)) \<Longrightarrow>
     mergeLoop body clock k st vs = (st, [], [])"
  by (induction vs arbitrary: k) (auto split: option.splits)

lemma tryMergeWithDrp_None_has:
  assumes "fst (tryMergeWithDrp E now st vertex op) = None"
  shows "hasVertex (hashGraph (snd (tryMergeWithDrp E now st vertex op))) (vhash vertex)"
proof (cases "validateVertex E now st vertex")
  case (Inl e)
  then show ?thesis using assms by (simp add: tryMergeWithDrp_def)
next
  case valid: (Inr u)
  show ?thesis
  proof (cases "computeLCA E (hashGraph st) (dependencies vertex)")
    case (Inl e)
    then show ?thesis using assms valid by (simp add: tryMergeWithDrp_def)
  next
    case lca: (Inr pre)
    obtain r s2 where set: "setStatesForMerge E st vertex op pre = (r, s2)"
      by (cases "setStatesForMerge E st vertex op pre") auto
    show ?thesis
    proof (cases r)
      case (Some e)
      then show ?thesis using assms valid lca set by (simp add: tryMergeWithDrp_def)
    next
      case None
      show ?thesis
      proof (cases "addVertex (hashGraph s2) vertex")
        case (Inl e)
        then show ?thesis using assms valid lca set None by (simp add: tryMergeWithDrp_def)
      next
        case add: (Inr g)
        have "hashGraph (snd (tryMergeWithDrp E now st vertex op)) = g"
          using valid lca set None add
          by (auto simp: tryMergeWithDrp_def initializeFinalityState_def
              split: sum.splits option.splits)
        then show ?thesis using addVertex_has [OF add] by simp
      qed
    qed
  qed
qed

lemma tryMergeWithoutDrp_None_has:
  assumes "fst (tryMergeWithoutDrp E now st vertex op) = None"
  shows "hasVertex (hashGraph (snd (tryMergeWithoutDrp E now st vertex op))) (vhash vertex)"
  using assms
  by (auto simp: tryMergeWithoutDrp_def addVertex_def hasVertex_insertVertex
      split: sum.splits if_splits)

lemma mergeBody_None_has:
  "fst (mergeBody E st now s vertex op) = None \<Longrightarrow>
     hasVertex (hashGraph (snd (mergeBody E st now s vertex op))) (vhash vertex)"
  by (cases "drp st")
     (simp_all add: mergeBody_def tryMergeWithDrp_None_has tryMergeWithoutDrp_None_has)

text \<open>
  When the loop reports nothing missing, every vertex of the batch that has an operation
  is in the graph afterwards.
\<close>

lemma mergeLoop_complete_present:
  assumes "fst (snd (mergeLoop (mergeBody E st) clock k s vs)) = []"
  shows "\<forall>vertex \<in> set vs. operation vertex \<noteq> None \<longrightarrow>
           hasVertex (hashGraph (fst (mergeLoop (mergeBody E st) clock k s vs))) (vhash vertex)"
  using assms
proof (induction vs arbitrary: k s)
  case Nil
  show ?case by simp
next
  case (Cons vertex rest)
  let ?s1 = "fst (mergeLoop (mergeBody E st) clock k s [vertex])"
  have final: "fst (mergeLoop (mergeBody E st) clock k s (vertex # rest)) =
      fst (mergeLoop (mergeBody E st) clock (Suc k) ?s1 rest)"
    by (rule mergeLoop_fst_Cons)
  have missing: "fst (snd (mergeLoop (mergeBody E st) clock k s [vertex])) = [] \<and>
      fst (snd (mergeLoop (mergeBody E st) clock (Suc k) ?s1 rest)) = []"
    using Cons.prems by (auto split: option.splits prod.splits if_splits)
  have rest: "\<forall>v \<in> set rest. operation v \<noteq> None \<longrightarrow>
      hasVertex (hashGraph (fst (mergeLoop (mergeBody E st) clock (Suc k) ?s1 rest))) (vhash v)"
    using Cons.IH missing by blast
  have head: "operation vertex \<noteq> None \<longrightarrow> hasVertex (hashGraph ?s1) (vhash vertex)"
  proof
    assume "operation vertex \<noteq> None"
    then obtain op where op: "operation vertex = Some op" by blast
    show "hasVertex (hashGraph ?s1) (vhash vertex)"
    proof (cases "hasVertex (hashGraph s) (vhash vertex)")
      case True
      then show ?thesis using op by simp
    next
      case False
      have "fst (mergeBody E st (clock k) s vertex op) = None"
        using missing op False by (cases "mergeBody E st (clock k) s vertex op") (auto split: option.splits)
      then show ?thesis
        using mergeBody_None_has [of E st "clock k" s vertex op] op False
        by (cases "mergeBody E st (clock k) s vertex op") (auto split: option.splits)
    qed
  qed
  have "operation vertex \<noteq> None \<longrightarrow>
      hasVertex (hashGraph (fst (mergeLoop (mergeBody E st) clock (Suc k) ?s1 rest))) (vhash vertex)"
    using head mergeLoop_has [of ?s1 "vhash vertex" E st clock "Suc k" rest] by blast
  then show ?case unfolding final using rest by simp
qed

lemma computeObjectACL_cong:
  assumes "(acl st' = None) = (acl st = None)" and "originalObjectACL st' = originalObjectACL st"
    and "aclStates st' = aclStates st" and "hashGraph st' = hashGraph st"
  shows "computeObjectACL E st' deps pre vop = computeObjectACL E st deps pre vop"
  using assms by (auto simp: computeObjectACL_def split: option.splits)

lemma computeDRP_cong:
  assumes "(drp st' = None) = (drp st = None)" and "originalDRP st' = originalDRP st"
    and "drpStates st' = drpStates st" and "hashGraph st' = hashGraph st"
  shows "computeDRP E st' deps pre vop = computeDRP E st deps pre vop"
  using assms by (auto simp: computeDRP_def split: option.splits)

text \<open>
  After a refresh of the live objects that completed, a second refresh on the same graph
  and caches writes the same values and only notifies the subscribers again.
\<close>

lemma refreshAfterMerge_again:
  assumes "refreshAfterMerge E st newVertices = (Inr u, st')"
  shows "refreshAfterMerge E st' [] = (Inr (), notify st' ''merge'' [])"
proof -
  let ?st1 = "st\<lparr>vertices := getAllVertices (hashGraph st)\<rparr>"
  obtain st2 where up1: "updateObjectACLState E ?st1 = Inr st2"
    using assms by (cases "updateObjectACLState E ?st1") (auto simp: refreshAfterMerge_def Let_def)
  obtain st3 where up2: "updateDRPState E st2 = Inr st3"
    using assms up1 by (cases "updateDRPState E st2") (auto simp: refreshAfterMerge_def Let_def)
  have st': "st' = notify st3 ''merge'' newVertices"
    using assms up1 up2 by (simp add: refreshAfterMerge_def Let_def)
  obtain a nsA where a: "acl st = Some a"
      and nsA: "computeObjectACLState E ?st1 (getFrontier (hashGraph st)) None None = Inr nsA"
      and st2: "st2 = ?st1\<lparr>acl := Some (writeBack a nsA)\<rparr>"
    using up1 by (auto simp: updateObjectACLState_def split: option.splits sum.splits)
  obtain d nsD where d: "drp st = Some d"
      and nsD: "computeDRPState E st2 (getFrontier (hashGraph st)) None None = Inr nsD"
      and st3: "st3 = st2\<lparr>drp := Some (writeBack d nsD)\<rparr>"
    using up2 st2 by (auto simp: updateDRPState_def split: option.splits sum.splits)
  have shape: "st' = st\<lparr>vertices := getAllVertices (hashGraph st), acl := Some (writeBack a nsA),
      drp := Some (writeBack d nsD),
      delivered := delivered st @ map (\<lambda>callback. (callback, ''merge'', newVertices)) (subscriptions st)\<rparr>"
    unfolding st' st3 st2 by (simp add: notify_def)
  have again1: "st'\<lparr>vertices := getAllVertices (hashGraph st')\<rparr> = st'"
    by (subst (1 2 3) shape) simp
  have aclState: "computeObjectACLState E st' (getFrontier (hashGraph st')) None None = Inr nsA"
  proof -
    have "computeObjectACL E st' (getFrontier (hashGraph st)) None None =
        computeObjectACL E ?st1 (getFrontier (hashGraph st)) None None"
      by (rule computeObjectACL_cong) (simp_all add: shape a)
    moreover have "hashGraph st' = hashGraph st" by (simp add: shape)
    ultimately show ?thesis using nsA by (simp add: computeObjectACLState_def)
  qed
  have up1': "updateObjectACLState E st' = Inr st'"
  proof -
    have "acl st' = Some (writeBack a nsA)" by (simp add: shape)
    then have "updateObjectACLState E st' = Inr (st'\<lparr>acl := Some (writeBack (writeBack a nsA) nsA)\<rparr>)"
      using aclState by (simp add: updateObjectACLState_def)
    also have "st'\<lparr>acl := Some (writeBack (writeBack a nsA) nsA)\<rparr> = st'"
      unfolding writeBack_idem by (subst (1 2) shape) simp
    finally show ?thesis .
  qed
  have drpState: "computeDRPState E st' (getFrontier (hashGraph st')) None None = Inr nsD"
  proof -
    have "computeDRP E st' (getFrontier (hashGraph st)) None None =
        computeDRP E st2 (getFrontier (hashGraph st)) None None"
      by (rule computeDRP_cong) (simp_all add: shape st2 d)
    moreover have "hashGraph st' = hashGraph st" by (simp add: shape)
    ultimately show ?thesis using nsD by (simp add: computeDRPState_def)
  qed
  have up2': "updateDRPState E st' = Inr st'"
  proof -
    have "drp st' = Some (writeBack d nsD)" by (simp add: shape)
    then have "updateDRPState E st' = Inr (st'\<lparr>drp := Some (writeBack (writeBack d nsD) nsD)\<rparr>)"
      using drpState by (simp add: updateDRPState_def)
    also have "st'\<lparr>drp := Some (writeBack (writeBack d nsD) nsD)\<rparr> = st'"
      unfolding writeBack_idem by (subst (1 2) shape) simp
    finally show ?thesis .
  qed
  show ?thesis
    by (simp add: refreshAfterMerge_def Let_def again1 up1' up2')
qed

lemma merge_again_after_complete_eq:
  assumes "fst (merge E clock st vs) = Inr (True, missing)"
  shows "merge E clock' (snd (merge E clock st vs)) vs =
     (Inr (True, []),
      if drp st = None then snd (merge E clock st vs)
      else notify (snd (merge E clock st vs)) ''merge'' [])"
proof (cases "drp st")
  case None
  obtain st1 m nv where loop: "mergeLoop (tryMergeWithoutDrp E) clock 0 st vs = (st1, m, nv)"
    by (cases "mergeLoop (tryMergeWithoutDrp E) clock 0 st vs") auto
  have body: "mergeBody E st = tryMergeWithoutDrp E" using None by (simp add: mergeBody_def)
  have m: "m = []" using assms None loop by (simp add: merge_def mergeWithoutDrp_def)
  have st': "snd (merge E clock st vs) = st1"
    using None loop by (simp add: merge_def mergeWithoutDrp_def)
  have present: "\<forall>vertex \<in> set vs. operation vertex \<noteq> None \<longrightarrow>
      hasVertex (hashGraph st1) (vhash vertex)"
    using mergeLoop_complete_present [of E st clock 0 st vs] loop m body by simp
  have drp1: "drp st1 = None"
    using mergeLoop_drp_withoutDrp [of E clock 0 st vs] loop None by simp
  have "mergeLoop (tryMergeWithoutDrp E) clock' 0 st1 vs = (st1, [], [])"
    by (rule mergeLoop_all_present [OF present])
  then show ?thesis
    unfolding st' using None drp1 by (simp add: merge_def mergeWithoutDrp_def)
next
  case (Some d)
  obtain st1 m nv where loop: "mergeLoop (tryMergeWithDrp E) clock 0 st vs = (st1, m, nv)"
    by (cases "mergeLoop (tryMergeWithDrp E) clock 0 st vs") auto
  have body: "mergeBody E st = tryMergeWithDrp E" using Some by (simp add: mergeBody_def)
  obtain r st' where refresh: "refreshAfterMerge E st1 nv = (r, st')"
    by (cases "refreshAfterMerge E st1 nv") auto
  have r: "r = Inr ()" and m: "m = []"
    using assms Some loop refresh by (cases r; simp add: merge_def mergeWithDrp_def)+
  have st': "snd (merge E clock st vs) = st'"
    using Some loop refresh r by (simp add: merge_def mergeWithDrp_def)
  have graph: "hashGraph st' = hashGraph st1"
    using refreshAfterMerge_frame [of E st1 nv] refresh by simp
  have present: "\<forall>vertex \<in> set vs. operation vertex \<noteq> None \<longrightarrow>
      hasVertex (hashGraph st') (vhash vertex)"
    using mergeLoop_complete_present [of E st clock 0 st vs] loop m body graph by simp
  have "drp st1 = Some d"
    using mergeLoop_drp_withDrp [of E clock 0 st vs] loop Some by simp
  then obtain d' where drp': "drp st' = Some d'"
    using refreshAfterMerge_frame [of E st1 nv] refresh by auto
  have loop': "mergeLoop (tryMergeWithDrp E) clock' 0 st' vs = (st', [], [])"
    by (rule mergeLoop_all_present [OF present])
  have again: "refreshAfterMerge E st' [] = (Inr (), notify st' ''merge'' [])"
    using refreshAfterMerge_again [of E st1 nv "()" st'] refresh r by simp
  show ?thesis
    unfolding st' using Some drp' loop' again by (simp add: merge_def mergeWithDrp_def)
qed

text \<open>
  Claim C8, as amended. When \<open>merge\<close> of a batch has returned with nothing missing, a
  second \<open>merge\<close> of the same batch, at any later clock, returns \<open>(true, [])\<close> and leaves the
  graph, the vertices list, both state caches, the finality store and the live DRP and ACL
  as the first call left them; with a DRP registered each subscriber is notified once
  more, of an empty list of vertices.
\<close>

theorem merge_again_after_complete:
  assumes "fst (merge E clock st vs) = Inr (True, missing)"
  shows "fst (merge E clock' (snd (merge E clock st vs)) vs) = Inr (True, []) \<and>
    hashGraph (snd (merge E clock' (snd (merge E clock st vs)) vs)) =
      hashGraph (snd (merge E clock st vs)) \<and>
    vertices (snd (merge E clock' (snd (merge E clock st vs)) vs)) =
      vertices (snd (merge E clock st vs)) \<and>
    drpStates (snd (merge E clock' (snd (merge E clock st vs)) vs)) =
      drpStates (snd (merge E clock st vs)) \<and>
    aclStates (snd (merge E clock' (snd (merge E clock st vs)) vs)) =
      aclStates (snd (merge E clock st vs)) \<and>
    finalityStore (snd (merge E clock' (snd (merge E clock st vs)) vs)) =
      finalityStore (snd (merge E clock st vs)) \<and>
    drp (snd (merge E clock' (snd (merge E clock st vs)) vs)) = drp (snd (merge E clock st vs)) \<and>
    acl (snd (merge E clock' (snd (merge E clock st vs)) vs)) = acl (snd (merge E clock st vs)) \<and>
    delivered (snd (merge E clock' (snd (merge E clock st vs)) vs)) =
      (if drp st = None then delivered (snd (merge E clock st vs))
       else delivered (snd (merge E clock st vs)) @
            map (\<lambda>callback. (callback, ''merge'', []))
              (subscriptions (snd (merge E clock st vs))))"
  unfolding merge_again_after_complete_eq [OF assms]
  by (simp add: notify_def)

lemma demo_merge_A: "fst (merge demoEnv (\<lambda>i. 10) demoObject [demoVertexA]) = Inr (True, [])"
  by (simp add: engine_defs demo_defs demoObject_sel)

lemma demo_merge_A_subscriptions:
  "subscriptions (snd (merge demoEnv (\<lambda>i. 10) demoObject [demoVertexA])) = [0]"
  by (simp add: engine_defs demo_defs demoObject_sel)

theorem merge_again_after_complete_witness:
  "fst (merge demoEnv (\<lambda>i. 10) demoObject [demoVertexA]) = Inr (True, []) \<and>
   fst (merge demoEnv (\<lambda>i. 20) (snd (merge demoEnv (\<lambda>i. 10) demoObject [demoVertexA])) [demoVertexA]) =
     Inr (True, []) \<and>
   hashGraph (snd (merge demoEnv (\<lambda>i. 20) (snd (merge demoEnv (\<lambda>i. 10) demoObject [demoVertexA]))
       [demoVertexA])) =
     hashGraph (snd (merge demoEnv (\<lambda>i. 10) demoObject [demoVertexA])) \<and>
   delivered (snd (merge demoEnv (\<lambda>i. 20) (snd (merge demoEnv (\<lambda>i. 10) demoObject [demoVertexA]))
       [demoVertexA])) =
     delivered (snd (merge demoEnv (\<lambda>i. 10) demoObject [demoVertexA])) @ [(0, ''merge'', [])]"
  using merge_again_after_complete [OF demo_merge_A, of "\<lambda>i. 20"] demo_merge_A
    demo_merge_A_subscriptions
  by (simp add: demoObject_sel)

end
